theory Spec2Isabelle
  imports Main "HOL-Library.Sublist"
begin

section \<open>The icon converter \<open>tools/convert-icons.py\<close>\<close>

text \<open>
  The program is a straight-line Python script: it imports the rasterizer package, computes
  the path of the source vector file from its own location, checks that the file exists and
  then renders it once per configured size. The script has no functions of its own, so the
  model is one definition for the script body (\<open>convert_icons\<close>) and one for its
  \<^verbatim>\<open>for\<close> loop (\<open>render_loop\<close>).

  Everything the script touches outside itself is explicit:
  \<^item> the host (\<open>host\<close>): whether the binding package and the native engine are present,
    the value of \<^verbatim>\<open>__file__\<close>, the current working directory, and the rasterizer
    \<^verbatim>\<open>cairosvg.svg2png\<close>, which is not code of the repository and is a parameter;
  \<^item> the file system (\<open>filesystem\<close>), a map from absolute paths to entries;
  \<^item> the observable actions, recorded in order in \<open>events\<close>: the import, every
    \<^verbatim>\<open>os.path.exists\<close>, every rasterizer call and every printed line.
  Python's \<^verbatim>\<open>str\<close> is modelled by its UTF-8 bytes (\<open>string\<close>), which is what
  \<^verbatim>\<open>print\<close> sends to standard output; the non-ASCII characters of the messages are
  written byte by byte.
\<close>

subsection \<open>Exceptions and exit status\<close>

text \<open>
  The exception classes that matter to the two \<^verbatim>\<open>except\<close> clauses.
  \<open>ModuleNotFoundError\<close> is a subclass of \<open>ImportError\<close>; \<open>FileNotFoundError\<close>,
  \<open>IsADirectoryError\<close> and \<open>PermissionError\<close> are subclasses of \<open>OSError\<close>;
  \<open>ParseError\<close> stands for an error of the XML parser and is a subclass of neither.
\<close>

datatype py_exn =
    OSError
  | FileNotFoundError
  | IsADirectoryError
  | PermissionError
  | ImportError
  | ModuleNotFoundError
  | ParseError

fun is_OSError :: "py_exn \<Rightarrow> bool" where
  "is_OSError OSError = True"
| "is_OSError FileNotFoundError = True"
| "is_OSError IsADirectoryError = True"
| "is_OSError PermissionError = True"
| "is_OSError _ = False"

fun is_ImportError :: "py_exn \<Rightarrow> bool" where
  "is_ImportError ImportError = True"
| "is_ImportError ModuleNotFoundError = True"
| "is_ImportError _ = False"

text \<open>
  How a run ends: the script runs off its last line (\<open>Finished\<close>), calls
  \<^verbatim>\<open>sys.exit(n)\<close> (\<open>SysExit n\<close>), or an exception nobody handles reaches the
  interpreter (\<open>Uncaught e\<close>), which prints a traceback and exits with status 1.
\<close>

datatype outcome = Finished | SysExit int | Uncaught py_exn

fun exit_status :: "outcome \<Rightarrow> int" where
  "exit_status Finished = 0"
| "exit_status (SysExit n) = n"
| "exit_status (Uncaught e) = 1"

subsection \<open>Paths and the file system\<close>

type_synonym path = string

text \<open>
  \<^verbatim>\<open>os.path.dirname\<close> and \<^verbatim>\<open>os.path.join\<close> (two arguments) as
  \<^verbatim>\<open>posixpath\<close> defines them: \<open>dirname p\<close> is \<open>p\<close> up to and including its last
  slash, with trailing slashes stripped unless it consists of slashes only; \<open>join a b\<close> is
  \<open>b\<close> when \<open>b\<close> is absolute, and otherwise \<open>a\<close> and \<open>b\<close> with one slash between them
  unless \<open>a\<close> is empty or already ends with one.
\<close>

definition os_path_dirname :: "path \<Rightarrow> path" where
  "os_path_dirname p =
     (let head = rev (dropWhile (\<lambda>c. c \<noteq> CHR ''/'') (rev p))
      in if head \<noteq> [] \<and> \<not> list_all (\<lambda>c. c = CHR ''/'') head
         then rev (dropWhile (\<lambda>c. c = CHR ''/'') (rev head))
         else head)"

definition os_path_join :: "path \<Rightarrow> path \<Rightarrow> path" where
  "os_path_join a b =
     (if take 1 b = ''/'' then b
      else if a = [] \<or> last a = CHR ''/'' then a @ b
      else a @ ''/'' @ b)"

text \<open>
  A file system entry is a directory or a file. A file carries whether the user may open it
  (for reading and for writing) and what it holds: a vector document, a raster image of a
  declared width and height, or anything else.
\<close>

datatype content = Svg | Png int int | Other

datatype node = Directory | File bool content

type_synonym filesystem = "path \<rightharpoonup> node"

text \<open>
  The operating system resolves a relative path against the current working directory.
\<close>

definition resolve :: "path \<Rightarrow> path \<Rightarrow> path" where
  "resolve cwd p = (if take 1 p = ''/'' then p else cwd @ ''/'' @ p)"

text \<open>
  \<^verbatim>\<open>os.path.exists\<close>: true for every kind of entry, a directory and a file that
  cannot be opened included.
\<close>

definition os_path_exists :: "filesystem \<Rightarrow> path \<Rightarrow> path \<Rightarrow> bool" where
  "os_path_exists fs cwd p = (fs (resolve cwd p) \<noteq> None)"

subsection \<open>Formatting\<close>

text \<open>The decimal digits of a natural number, and \<^verbatim>\<open>str\<close> of a Python \<^verbatim>\<open>int\<close>.\<close>

fun digits :: "nat \<Rightarrow> string" where
  "digits n =
     (if n < 10 then [''0123456789'' ! n]
      else digits (n div 10) @ [''0123456789'' ! (n mod 10)])"

declare digits.simps [simp del]

definition str_int :: "int \<Rightarrow> string" where
  "str_int i = (if i < 0 then CHR ''-'' # digits (nat (- i)) else digits (nat i))"

subsection \<open>The messages\<close>

text \<open>
  The script's string literals. The bytes written \<open>CHR 0x..\<close> are the UTF-8 encoding of
  the Chinese text and of the arrow U+2192 of the source.
\<close>

definition msg_cairo_missing :: string where
  "msg_cairo_missing =
     ''Cairo library ''
     @ [CHR 0xE6, CHR 0x9C, CHR 0xAA, CHR 0xE5, CHR 0xAE, CHR 0x89, CHR 0xE8, CHR 0xA3, CHR 0x9D,
        CHR 0xE6, CHR 0x88, CHR 0x96, CHR 0xE6, CHR 0x89, CHR 0xBE, CHR 0xE4, CHR 0xB8, CHR 0x8D,
        CHR 0xE5, CHR 0x88, CHR 0xB0]
     @ '' (libcairo / cairo.dll)''"

definition arrow :: string where
  "arrow = [CHR 0xE2, CHR 0x86, CHR 0x92]"

definition msg_windows :: string where
  "msg_windows =
     ''Windows '' @ arrow @ '' ''
     @ [CHR 0xE8, CHR 0xAB, CHR 0x8B, CHR 0xE5, CHR 0xAE, CHR 0x89, CHR 0xE8, CHR 0xA3, CHR 0x9D]
     @ '' GTK runtime''"

definition msg_linux :: string where
  "msg_linux = ''Linux  '' @ arrow @ '' apt install libcairo2''"

definition msg_macos :: string where
  "msg_macos = ''macOS  '' @ arrow @ '' brew install cairo''"

definition msg_need_cairosvg :: string where
  "msg_need_cairosvg =
     [CHR 0xE9, CHR 0x9C, CHR 0x80, CHR 0xE5, CHR 0xAE, CHR 0x89, CHR 0xE8, CHR 0xA3, CHR 0x9D]
     @ '' cairosvg: pip install cairosvg''"

definition msg_cannot_get :: "path \<Rightarrow> string" where
  "msg_cannot_get svg_file =
     [CHR 0xE7, CHR 0x84, CHR 0xA1, CHR 0xE6, CHR 0xB3, CHR 0x95, CHR 0xE5, CHR 0x8F, CHR 0x96,
      CHR 0xE5, CHR 0xBE, CHR 0x97]
     @ '' '' @ svg_file"

definition msg_converted :: "path \<Rightarrow> string" where
  "msg_converted out_file =
     [CHR 0xE5, CHR 0xB7, CHR 0xB2, CHR 0xE8, CHR 0xBD, CHR 0x89, CHR 0xE6, CHR 0x8F, CHR 0x9B]
     @ '': '' @ out_file"

subsection \<open>The host and the run state\<close>

text \<open>
  The rasterizer is called as
  \<^verbatim>\<open>svg2png(url=, write_to=, output_width=, output_height=)\<close>. It is given the file
  system and the working directory, and returns the exception it raises, if any, together
  with the file system it leaves behind.
\<close>

type_synonym rasterizer =
  "filesystem \<Rightarrow> path \<Rightarrow> path \<Rightarrow> path \<Rightarrow> int \<Rightarrow> int \<Rightarrow> py_exn option \<times> filesystem"

record host =
  binding_installed :: bool
  native_engine_present :: bool
  script_file :: path
  cwd :: path
  svg2png :: rasterizer

text \<open>
  \<^verbatim>\<open>import cairosvg\<close>. Python looks the package up first and raises
  \<open>ModuleNotFoundError\<close> when it is not installed, before any code of the package runs.
  An installed package loads the native library while it is imported, and that raises
  \<open>OSError\<close> when the library is not on the host. \<open>None\<close> is a successful import.
\<close>

definition import_cairosvg :: "host \<Rightarrow> py_exn option" where
  "import_cairosvg h =
     (if \<not> binding_installed h then Some ModuleNotFoundError
      else if \<not> native_engine_present h then Some OSError
      else None)"

datatype event =
    EvImport
  | EvExists path
  | EvSvg2png path path int int
  | EvPrint string

record world =
  files :: filesystem
  events :: "event list"

definition emit :: "event \<Rightarrow> world \<Rightarrow> world" where
  "emit ev w = w\<lparr>events := events w @ [ev]\<rparr>"

definition print :: "string \<Rightarrow> world \<Rightarrow> world" where
  "print s w = emit (EvPrint s) w"

subsection \<open>The script\<close>

definition sizes :: "int list" where
  "sizes = [16, 48, 128, 300]"

definition svg_file :: "host \<Rightarrow> path" where
  "svg_file h = os_path_join (os_path_dirname (script_file h)) ''chat-icon.svg''"

definition out_file :: "int \<Rightarrow> path" where
  "out_file sz = ''chat-icon-'' @ str_int sz @ ''.png''"

text \<open>
  The \<^verbatim>\<open>for\<close> loop. An exception of the rasterizer is not caught: it ends the run
  at once, with whatever the failed call left in the file system. The loop variable
  \<^verbatim>\<open>size\<close> of the source is written \<open>sz\<close>, since \<open>size\<close> is a constant of HOL.
\<close>

fun render_loop :: "host \<Rightarrow> path \<Rightarrow> int list \<Rightarrow> world \<Rightarrow> outcome \<times> world" where
  "render_loop h svg [] w = (Finished, w)"
| "render_loop h svg (sz # rest) w =
     (let w1 = emit (EvSvg2png svg (out_file sz) sz sz) w
      in case svg2png h (files w1) (cwd h) svg (out_file sz) sz sz of
           (Some e, fs') \<Rightarrow> (Uncaught e, w1\<lparr>files := fs'\<rparr>)
         | (None, fs') \<Rightarrow>
             render_loop h svg rest (print (msg_converted (out_file sz)) (w1\<lparr>files := fs'\<rparr>)))"

text \<open>The whole script, run on a host with a file system.\<close>

definition convert_icons :: "host \<Rightarrow> filesystem \<Rightarrow> outcome \<times> world" where
  "convert_icons h fs =
     (let w0 = emit EvImport \<lparr>files = fs, events = []\<rparr>
      in case import_cairosvg h of
           Some e \<Rightarrow>
             if is_OSError e then
               (SysExit 1,
                print msg_macos (print msg_linux (print msg_windows (print msg_cairo_missing w0))))
             else if is_ImportError e then
               (SysExit 1, print msg_need_cairosvg w0)
             else (Uncaught e, w0)
         | None \<Rightarrow>
             let w1 = emit (EvExists (svg_file h)) w0
             in if \<not> os_path_exists (files w1) (cwd h) (svg_file h) then
                  (SysExit 1, print (msg_cannot_get (svg_file h)) w1)
                else render_loop h (svg_file h) sizes w1)"

subsection \<open>What a run shows\<close>

fun printed :: "event list \<Rightarrow> string list" where
  "printed [] = []"
| "printed (EvPrint s # evs) = s # printed evs"
| "printed (_ # evs) = printed evs"

fun calls :: "event list \<Rightarrow> (path \<times> path \<times> int \<times> int) list" where
  "calls [] = []"
| "calls (EvSvg2png url out width height # evs) = (url, out, width, height) # calls evs"
| "calls (_ # evs) = calls evs"

fun exists_checks :: "event list \<Rightarrow> path list" where
  "exists_checks [] = []"
| "exists_checks (EvExists p # evs) = p # exists_checks evs"
| "exists_checks (_ # evs) = exists_checks evs"

definition stdout :: "outcome \<times> world \<Rightarrow> string list" where
  "stdout r = printed (events (snd r))"

subsection \<open>The rasterizer as the script relies on it\<close>

text \<open>
  One rasterizer call of the loop, the file system after the calls for a list of sizes, and
  whether each of those calls returns without raising.
\<close>

definition render_call :: "host \<Rightarrow> path \<Rightarrow> filesystem \<Rightarrow> int \<Rightarrow> py_exn option \<times> filesystem" where
  "render_call h svg fs sz = svg2png h fs (cwd h) svg (out_file sz) sz sz"

fun files_after :: "host \<Rightarrow> path \<Rightarrow> int list \<Rightarrow> filesystem \<Rightarrow> filesystem" where
  "files_after h svg [] fs = fs"
| "files_after h svg (sz # rest) fs = files_after h svg rest (snd (render_call h svg fs sz))"

fun every_call_succeeds :: "host \<Rightarrow> path \<Rightarrow> int list \<Rightarrow> filesystem \<Rightarrow> bool" where
  "every_call_succeeds h svg [] fs = True"
| "every_call_succeeds h svg (sz # rest) fs =
     (fst (render_call h svg fs sz) = None
      \<and> every_call_succeeds h svg rest (snd (render_call h svg fs sz)))"

text \<open>
  The events of the loop when the calls for the given sizes all return: per size, the call
  and then its progress line.
\<close>

fun loop_events :: "path \<Rightarrow> int list \<Rightarrow> event list" where
  "loop_events svg [] = []"
| "loop_events svg (sz # rest) =
     EvSvg2png svg (out_file sz) sz sz # EvPrint (msg_converted (out_file sz))
     # loop_events svg rest"

text \<open>
  Where the output for a size lands, what a written output is, and a file system with the
  outputs for a list of sizes written into it.
\<close>

definition target :: "host \<Rightarrow> int \<Rightarrow> path" where
  "target h sz = resolve (cwd h) (out_file sz)"

definition png_file :: "int \<Rightarrow> node" where
  "png_file sz = File True (Png sz sz)"

fun with_outputs :: "host \<Rightarrow> int list \<Rightarrow> filesystem \<Rightarrow> filesystem" where
  "with_outputs h [] fs = fs"
| "with_outputs h (sz # rest) fs = with_outputs h rest (fs(target h sz \<mapsto> png_file sz))"

text \<open>
  Modelled from the spec: the rasterizer is an external collaborator, required only to
  rasterize a vector source to a raster of the requested width and height, one file write
  per call, overwriting any prior file of the same name. Two contracts state this for an
  arbitrary rasterizer. \<open>writes_only_target\<close>: a call that returns has written a raster of
  the requested dimensions to \<^verbatim>\<open>write_to\<close>, and no call, returning or raising,
  changes any other path. \<open>tolerates_outputs\<close>: a call that returns still returns when
  paths other than its source hold raster files the user may open, so an output that is
  already there does not make the write fail.
\<close>

definition writes_only_target :: "rasterizer \<Rightarrow> bool" where
  "writes_only_target rast =
     (\<forall>fs wd url out width height.
        (fst (rast fs wd url out width height) = None \<longrightarrow>
           snd (rast fs wd url out width height)
             = fs(resolve wd out \<mapsto> File True (Png width height)))
        \<and> (\<forall>p. p \<noteq> resolve wd out \<longrightarrow> snd (rast fs wd url out width height) p = fs p))"

definition tolerates_outputs :: "rasterizer \<Rightarrow> bool" where
  "tolerates_outputs rast =
     (\<forall>fs fs' wd url out width height.
        (\<forall>p. fs' p = fs p
              \<or> (p \<noteq> resolve wd url \<and> (\<exists>a b. fs' p = Some (File True (Png a b)))))
        \<longrightarrow> fst (rast fs wd url out width height) = None
        \<longrightarrow> fst (rast fs' wd url out width height) = None)"

text \<open>
  Modelled from the spec: a reference rasterizer that meets both contracts, used to run the
  script on concrete hosts. It opens the source first: a missing source, a directory, a file
  the user may not open and a file that is not a vector document each raise. It then opens
  \<^verbatim>\<open>write_to\<close> for writing, which raises on a directory and on a file the user may
  not open, and otherwise creates or replaces the file with a raster of the requested
  width and height.
\<close>

definition reference_svg2png :: rasterizer where
  "reference_svg2png fs wd url out width height =
     (case fs (resolve wd url) of
        None \<Rightarrow> (Some FileNotFoundError, fs)
      | Some Directory \<Rightarrow> (Some IsADirectoryError, fs)
      | Some (File readable c) \<Rightarrow>
          if \<not> readable then (Some PermissionError, fs)
          else if c \<noteq> Svg then (Some ParseError, fs)
          else (case fs (resolve wd out) of
                  Some Directory \<Rightarrow> (Some IsADirectoryError, fs)
                | Some (File writable c') \<Rightarrow>
                    if writable then (None, fs(resolve wd out \<mapsto> File True (Png width height)))
                    else (Some PermissionError, fs)
                | None \<Rightarrow> (None, fs(resolve wd out \<mapsto> File True (Png width height)))))"

subsection \<open>Example hosts\<close>

text \<open>
  A host with everything installed, the script in \<^verbatim>\<open>/x/tools\<close> and the working
  directory \<^verbatim>\<open>/w\<close>; variants of it with a dependency missing; and file systems with
  and without the source file.
\<close>

definition good_host :: host where
  "good_host =
     \<lparr>binding_installed = True, native_engine_present = True,
      script_file = ''/x/tools/convert-icons.py'', cwd = ''/w'',
      svg2png = reference_svg2png\<rparr>"

definition no_native_host :: host where
  "no_native_host = good_host\<lparr>native_engine_present := False\<rparr>"

definition no_binding_host :: host where
  "no_binding_host = good_host\<lparr>binding_installed := False\<rparr>"

definition bare_host :: host where
  "bare_host = good_host\<lparr>binding_installed := False, native_engine_present := False\<rparr>"

definition empty_fs :: filesystem where
  "empty_fs = Map.empty"

definition good_fs :: filesystem where
  "good_fs = [''/x/tools/chat-icon.svg'' \<mapsto> File True Svg]"

text \<open>
  File systems in which the run reaches the loop and fails there: a directory at the source
  path, a source file the user may not open, and a directory in the way of the second
  output.
\<close>

definition dir_fs :: filesystem where
  "dir_fs = [''/x/tools/chat-icon.svg'' \<mapsto> Directory]"

definition unreadable_fs :: filesystem where
  "unreadable_fs = [''/x/tools/chat-icon.svg'' \<mapsto> File False Svg]"

definition blocked_fs :: filesystem where
  "blocked_fs = good_fs(''/w/chat-icon-48.png'' \<mapsto> Directory)"

section \<open>Properties\<close>

subsection \<open>Unfolding the model on concrete hosts\<close>

lemmas host_defs = good_host_def no_native_host_def no_binding_host_def bare_host_def

lemmas run_defs = convert_icons_def import_cairosvg_def svg_file_def os_path_join_def
  os_path_dirname_def os_path_exists_def resolve_def emit_def print_def sizes_def out_file_def
  str_int_def digits.simps reference_svg2png_def

lemmas msg_defs = msg_cairo_missing_def msg_windows_def msg_linux_def msg_macos_def
  msg_need_cairosvg_def msg_cannot_get_def msg_converted_def arrow_def

subsection \<open>The loop and the four ways a run goes\<close>

lemma render_loop_success:
  "every_call_succeeds h svg ss (files w) \<Longrightarrow>
   render_loop h svg ss w =
     (Finished, \<lparr>files = files_after h svg ss (files w), events = events w @ loop_events svg ss\<rparr>)"
proof (induction ss arbitrary: w)
  case Nil
  then show ?case by simp
next
  case (Cons sz rest)
  obtain r fs' where r: "svg2png h (files w) (cwd h) svg (out_file sz) sz sz = (r, fs')"
    by (cases "svg2png h (files w) (cwd h) svg (out_file sz) sz sz")
  with Cons.prems have ok: "r = None" and rest: "every_call_succeeds h svg rest fs'"
    by (simp_all add: render_call_def)
  let ?w = "print (msg_converted (out_file sz)) (emit (EvSvg2png svg (out_file sz) sz sz) w\<lparr>files := fs'\<rparr>)"
  have "files ?w = fs'" by (simp add: print_def emit_def)
  with rest have "every_call_succeeds h svg rest (files ?w)" by simp
  from Cons.IH [OF this] r ok show ?case
    by (simp add: render_call_def emit_def print_def)
qed

lemma render_loop_failure:
  "every_call_succeeds h svg pre (files w) \<Longrightarrow>
   fst (render_call h svg (files_after h svg pre (files w)) sz) = Some e \<Longrightarrow>
   render_loop h svg (pre @ sz # post) w =
     (Uncaught e,
      \<lparr>files = snd (render_call h svg (files_after h svg pre (files w)) sz),
       events = events w @ loop_events svg pre @ [EvSvg2png svg (out_file sz) sz sz]\<rparr>)"
proof (induction pre arbitrary: w)
  case Nil
  obtain r fs' where r: "svg2png h (files w) (cwd h) svg (out_file sz) sz sz = (r, fs')"
    by (cases "svg2png h (files w) (cwd h) svg (out_file sz) sz sz")
  with Nil show ?case by (simp add: render_call_def emit_def)
next
  case (Cons a pre)
  obtain r fs' where r: "svg2png h (files w) (cwd h) svg (out_file a) a a = (r, fs')"
    by (cases "svg2png h (files w) (cwd h) svg (out_file a) a a")
  with Cons.prems have ok: "r = None" and rest: "every_call_succeeds h svg pre fs'"
    and bad: "fst (render_call h svg (files_after h svg pre fs') sz) = Some e"
    by (simp_all add: render_call_def)
  let ?w = "print (msg_converted (out_file a)) (emit (EvSvg2png svg (out_file a) a a) w\<lparr>files := fs'\<rparr>)"
  have f: "files ?w = fs'" by (simp add: print_def emit_def)
  from Cons.IH [of ?w] rest bad f r ok show ?case
    by (simp add: render_call_def emit_def print_def)
qed

lemma loop_split:
  "\<not> every_call_succeeds h svg ss fs \<Longrightarrow>
   \<exists>pre sz post e. ss = pre @ sz # post \<and> every_call_succeeds h svg pre fs
      \<and> fst (render_call h svg (files_after h svg pre fs) sz) = Some e"
proof (induction ss arbitrary: fs)
  case Nil
  then show ?case by simp
next
  case (Cons a ss)
  show ?case
  proof (cases "fst (render_call h svg fs a)")
    case (Some e)
    then have "a # ss = [] @ a # ss \<and> every_call_succeeds h svg [] fs
        \<and> fst (render_call h svg (files_after h svg [] fs) a) = Some e" by simp
    then show ?thesis by blast
  next
    case None
    with Cons.prems have "\<not> every_call_succeeds h svg ss (snd (render_call h svg fs a))" by simp
    from Cons.IH [OF this] obtain pre sz post e where
      "ss = pre @ sz # post" "every_call_succeeds h svg pre (snd (render_call h svg fs a))"
      "fst (render_call h svg (files_after h svg pre (snd (render_call h svg fs a))) sz) = Some e"
      by blast
    with None have "a # ss = (a # pre) @ sz # post \<and> every_call_succeeds h svg (a # pre) fs
        \<and> fst (render_call h svg (files_after h svg (a # pre) fs) sz) = Some e" by simp
    then show ?thesis by blast
  qed
qed

lemma import_cases:
  "import_cairosvg h = None \<and> binding_installed h \<and> native_engine_present h
   \<or> import_cairosvg h = Some OSError \<and> binding_installed h \<and> \<not> native_engine_present h
   \<or> import_cairosvg h = Some ModuleNotFoundError \<and> \<not> binding_installed h"
  by (simp add: import_cairosvg_def)

lemma run_no_native:
  "import_cairosvg h = Some OSError \<Longrightarrow>
   convert_icons h fs =
     (SysExit 1,
      \<lparr>files = fs,
       events = [EvImport, EvPrint msg_cairo_missing, EvPrint msg_windows, EvPrint msg_linux,
                 EvPrint msg_macos]\<rparr>)"
  by (simp add: convert_icons_def emit_def print_def)

lemma run_no_binding:
  "import_cairosvg h = Some ModuleNotFoundError \<Longrightarrow>
   convert_icons h fs = (SysExit 1, \<lparr>files = fs, events = [EvImport, EvPrint msg_need_cairosvg]\<rparr>)"
  by (simp add: convert_icons_def emit_def print_def)

lemma run_no_source:
  "import_cairosvg h = None \<Longrightarrow> \<not> os_path_exists fs (cwd h) (svg_file h) \<Longrightarrow>
   convert_icons h fs =
     (SysExit 1,
      \<lparr>files = fs, events = [EvImport, EvExists (svg_file h), EvPrint (msg_cannot_get (svg_file h))]\<rparr>)"
  by (simp add: convert_icons_def emit_def print_def)

lemma run_loop:
  "import_cairosvg h = None \<Longrightarrow> os_path_exists fs (cwd h) (svg_file h) \<Longrightarrow>
   convert_icons h fs =
     render_loop h (svg_file h) sizes \<lparr>files = fs, events = [EvImport, EvExists (svg_file h)]\<rparr>"
  by (simp add: convert_icons_def emit_def)

lemma run_success:
  "import_cairosvg h = None \<Longrightarrow> os_path_exists fs (cwd h) (svg_file h) \<Longrightarrow>
   every_call_succeeds h (svg_file h) sizes fs \<Longrightarrow>
   convert_icons h fs =
     (Finished,
      \<lparr>files = files_after h (svg_file h) sizes fs,
       events = [EvImport, EvExists (svg_file h)] @ loop_events (svg_file h) sizes\<rparr>)"
  by (simp add: run_loop render_loop_success)

lemma run_failure:
  "import_cairosvg h = None \<Longrightarrow> os_path_exists fs (cwd h) (svg_file h) \<Longrightarrow>
   sizes = pre @ sz # post \<Longrightarrow> every_call_succeeds h (svg_file h) pre fs \<Longrightarrow>
   fst (render_call h (svg_file h) (files_after h (svg_file h) pre fs) sz) = Some e \<Longrightarrow>
   convert_icons h fs =
     (Uncaught e,
      \<lparr>files = snd (render_call h (svg_file h) (files_after h (svg_file h) pre fs) sz),
       events = [EvImport, EvExists (svg_file h)] @ loop_events (svg_file h) pre
                @ [EvSvg2png (svg_file h) (out_file sz) sz sz]\<rparr>)"
proof -
  assume imp: "import_cairosvg h = None" and ex: "os_path_exists fs (cwd h) (svg_file h)"
    and split: "sizes = pre @ sz # post"
    and pre: "every_call_succeeds h (svg_file h) pre fs"
    and bad: "fst (render_call h (svg_file h) (files_after h (svg_file h) pre fs) sz) = Some e"
  let ?w = "\<lparr>files = fs, events = [EvImport, EvExists (svg_file h)]\<rparr>"
  have "render_loop h (svg_file h) (pre @ sz # post) ?w =
     (Uncaught e,
      \<lparr>files = snd (render_call h (svg_file h) (files_after h (svg_file h) pre (files ?w)) sz),
       events = events ?w @ loop_events (svg_file h) pre
                @ [EvSvg2png (svg_file h) (out_file sz) sz sz]\<rparr>)"
    by (rule render_loop_failure) (simp_all add: pre bad)
  with imp ex split show ?thesis by (simp add: run_loop)
qed

lemma printed_append: "printed (xs @ ys) = printed xs @ printed ys"
  by (induction xs rule: printed.induct) simp_all

lemma calls_append: "calls (xs @ ys) = calls xs @ calls ys"
  by (induction xs rule: calls.induct) simp_all

lemma exists_checks_append: "exists_checks (xs @ ys) = exists_checks xs @ exists_checks ys"
  by (induction xs rule: exists_checks.induct) simp_all

lemma printed_loop_events: "printed (loop_events svg ss) = map (\<lambda>s. msg_converted (out_file s)) ss"
  by (induction ss) simp_all

lemma calls_loop_events: "calls (loop_events svg ss) = map (\<lambda>s. (svg, out_file s, s, s)) ss"
  by (induction ss) simp_all

lemma exists_checks_loop_events: "exists_checks (loop_events svg ss) = []"
  by (induction ss) simp_all

subsection \<open>The two dependency diagnostics\<close>

text \<open>
  Claim C4. The two dependency failures print different diagnostics. When the binding is
  installed and the native engine is missing, standard output is four lines: the line that
  names the Cairo library and one remediation line for each of Windows, Linux and macOS,
  each starting with the name of its platform. When the binding is not installed, standard
  output is the single line that ends with the instruction \<^verbatim>\<open>pip install cairosvg\<close>,
  and that line is none of the four lines of the other diagnostic.
\<close>

theorem dependency_diagnostics_distinct:
  "(binding_installed h \<and> \<not> native_engine_present h \<longrightarrow>
      stdout (convert_icons h fs) = [msg_cairo_missing, msg_windows, msg_linux, msg_macos])
   \<and> (\<not> binding_installed h \<longrightarrow> stdout (convert_icons h fs) = [msg_need_cairosvg])
   \<and> prefix ''Windows'' msg_windows \<and> prefix ''Linux'' msg_linux \<and> prefix ''macOS'' msg_macos
   \<and> distinct [msg_cairo_missing, msg_windows, msg_linux, msg_macos]
   \<and> suffix ''pip install cairosvg'' msg_need_cairosvg
   \<and> msg_need_cairosvg \<notin> set [msg_cairo_missing, msg_windows, msg_linux, msg_macos]"
proof -
  have a: "binding_installed h \<and> \<not> native_engine_present h \<longrightarrow>
      stdout (convert_icons h fs) = [msg_cairo_missing, msg_windows, msg_linux, msg_macos]"
    using import_cases [of h] by (auto simp: run_no_native stdout_def)
  have b: "\<not> binding_installed h \<longrightarrow> stdout (convert_icons h fs) = [msg_need_cairosvg]"
    using import_cases [of h] by (auto simp: run_no_binding stdout_def)
  have c: "prefix ''Windows'' msg_windows \<and> prefix ''Linux'' msg_linux \<and> prefix ''macOS'' msg_macos"
    by (simp add: msg_defs)
  have d: "distinct [msg_cairo_missing, msg_windows, msg_linux, msg_macos]"
    by (simp add: msg_defs)
  have e: "suffix ''pip install cairosvg'' msg_need_cairosvg"
    by (simp add: msg_defs suffix_def)
  have f: "msg_need_cairosvg \<notin> set [msg_cairo_missing, msg_windows, msg_linux, msg_macos]"
    by (simp add: msg_defs)
  from a b c d e f show ?thesis by blast
qed

theorem dependency_diagnostics_distinct_witness:
  "stdout (convert_icons no_native_host good_fs) = [msg_cairo_missing, msg_windows, msg_linux, msg_macos]
   \<and> stdout (convert_icons no_binding_host good_fs) = [msg_need_cairosvg]
   \<and> stdout (convert_icons no_native_host good_fs) \<noteq> stdout (convert_icons no_binding_host good_fs)"
proof -
  have n: "binding_installed no_native_host \<and> \<not> native_engine_present no_native_host"
    by (simp add: host_defs)
  have b: "\<not> binding_installed no_binding_host" by (simp add: host_defs)
  from n b dependency_diagnostics_distinct [of no_native_host good_fs]
    dependency_diagnostics_distinct [of no_binding_host good_fs]
  show ?thesis by (simp add: msg_defs)
qed

subsection \<open>A missing binding hides a missing engine\<close>

lemma run_cases [case_names no_native no_binding no_source success failure]:
  assumes "import_cairosvg h = Some OSError \<Longrightarrow> binding_installed h \<Longrightarrow> \<not> native_engine_present h \<Longrightarrow> P"
    and "import_cairosvg h = Some ModuleNotFoundError \<Longrightarrow> \<not> binding_installed h \<Longrightarrow> P"
    and "import_cairosvg h = None \<Longrightarrow> binding_installed h \<Longrightarrow> native_engine_present h \<Longrightarrow>
         \<not> os_path_exists fs (cwd h) (svg_file h) \<Longrightarrow> P"
    and "import_cairosvg h = None \<Longrightarrow> binding_installed h \<Longrightarrow> native_engine_present h \<Longrightarrow>
         os_path_exists fs (cwd h) (svg_file h) \<Longrightarrow>
         every_call_succeeds h (svg_file h) sizes fs \<Longrightarrow> P"
    and "\<And>pre sz post e. import_cairosvg h = None \<Longrightarrow> binding_installed h \<Longrightarrow>
         native_engine_present h \<Longrightarrow> os_path_exists fs (cwd h) (svg_file h) \<Longrightarrow>
         sizes = pre @ sz # post \<Longrightarrow> every_call_succeeds h (svg_file h) pre fs \<Longrightarrow>
         fst (render_call h (svg_file h) (files_after h (svg_file h) pre fs) sz) = Some e \<Longrightarrow> P"
  shows P
proof -
  consider (a) "import_cairosvg h = Some OSError" "binding_installed h" "\<not> native_engine_present h"
    | (b) "import_cairosvg h = Some ModuleNotFoundError" "\<not> binding_installed h"
    | (c) "import_cairosvg h = None" "binding_installed h" "native_engine_present h"
    using import_cases [of h] by auto
  then show P
  proof cases
    case a
    then show ?thesis by (rule assms(1))
  next
    case b
    then show ?thesis by (rule assms(2))
  next
    case c
    show ?thesis
    proof (cases "os_path_exists fs (cwd h) (svg_file h)")
      case False
      with c show ?thesis by (intro assms(3))
    next
      case True
      show ?thesis
      proof (cases "every_call_succeeds h (svg_file h) sizes fs")
        case ok: True
        with c True show ?thesis by (intro assms(4))
      next
        case False
        from loop_split [OF this] obtain pre sz post e where
          "sizes = pre @ sz # post" "every_call_succeeds h (svg_file h) pre fs"
          "fst (render_call h (svg_file h) (files_after h (svg_file h) pre fs) sz) = Some e"
          by blast
        with c True show ?thesis by (intro assms(5))
      qed
    qed
  qed
qed

lemma stdout_no_native:
  "import_cairosvg h = Some OSError \<Longrightarrow>
   stdout (convert_icons h fs) = [msg_cairo_missing, msg_windows, msg_linux, msg_macos]"
  by (simp add: run_no_native stdout_def)

lemma stdout_no_binding:
  "import_cairosvg h = Some ModuleNotFoundError \<Longrightarrow>
   stdout (convert_icons h fs) = [msg_need_cairosvg]"
  by (simp add: run_no_binding stdout_def)

lemma stdout_no_source:
  "import_cairosvg h = None \<Longrightarrow> \<not> os_path_exists fs (cwd h) (svg_file h) \<Longrightarrow>
   stdout (convert_icons h fs) = [msg_cannot_get (svg_file h)]"
  by (simp add: run_no_source stdout_def)

lemma stdout_success:
  "import_cairosvg h = None \<Longrightarrow> os_path_exists fs (cwd h) (svg_file h) \<Longrightarrow>
   every_call_succeeds h (svg_file h) sizes fs \<Longrightarrow>
   stdout (convert_icons h fs) = map (\<lambda>s. msg_converted (out_file s)) sizes"
  by (simp add: run_success stdout_def printed_loop_events)

lemma stdout_failure:
  "import_cairosvg h = None \<Longrightarrow> os_path_exists fs (cwd h) (svg_file h) \<Longrightarrow>
   sizes = pre @ sz # post \<Longrightarrow> every_call_succeeds h (svg_file h) pre fs \<Longrightarrow>
   fst (render_call h (svg_file h) (files_after h (svg_file h) pre fs) sz) = Some e \<Longrightarrow>
   stdout (convert_icons h fs) = map (\<lambda>s. msg_converted (out_file s)) pre"
  by (simp add: run_failure stdout_def printed_append printed_loop_events)

lemma cairo_line_not_progress: "msg_cairo_missing \<noteq> msg_converted x"
  by (simp add: msg_defs)

lemma cairo_line_not_cannot_get: "msg_cairo_missing \<noteq> msg_cannot_get x"
  by (simp add: msg_defs)

lemma cairo_line_not_need: "msg_cairo_missing \<noteq> msg_need_cairosvg"
  by (simp add: msg_defs)

text \<open>
  Claim C9. When the binding package is not installed, the run prints the missing-binding
  diagnostic and exits with status 1 whatever the state of the native engine: setting
  \<open>native_engine_present\<close> to any value leaves the whole run unchanged. The line that names
  the Cairo library is printed only when the binding is installed and its import raises
  \<open>OSError\<close>.
\<close>

theorem binding_absence_masks_native_absence:
  "(\<not> binding_installed h \<longrightarrow>
      stdout (convert_icons h fs) = [msg_need_cairosvg]
      \<and> fst (convert_icons h fs) = SysExit 1
      \<and> convert_icons (h\<lparr>native_engine_present := b\<rparr>) fs = convert_icons h fs)
   \<and> (msg_cairo_missing \<in> set (stdout (convert_icons h fs)) \<longrightarrow>
        binding_installed h \<and> import_cairosvg h = Some OSError)"
proof (intro conjI impI)
  assume nb: "\<not> binding_installed h"
  then have i: "import_cairosvg h = Some ModuleNotFoundError"
    by (simp add: import_cairosvg_def)
  from nb have i': "import_cairosvg (h\<lparr>native_engine_present := b\<rparr>) = Some ModuleNotFoundError"
    by (simp add: import_cairosvg_def)
  from i show "stdout (convert_icons h fs) = [msg_need_cairosvg]" by (rule stdout_no_binding)
  from i show "fst (convert_icons h fs) = SysExit 1" by (simp add: run_no_binding)
  from i i' show "convert_icons (h\<lparr>native_engine_present := b\<rparr>) fs = convert_icons h fs"
    by (simp add: run_no_binding)
next
  assume m: "msg_cairo_missing \<in> set (stdout (convert_icons h fs))"
  have "binding_installed h \<and> import_cairosvg h = Some OSError"
  proof (cases rule: run_cases [of h _ fs])
    case no_native
    then show ?thesis by simp
  next
    case no_binding
    with m show ?thesis by (simp add: stdout_no_binding cairo_line_not_need)
  next
    case no_source
    with m show ?thesis by (simp add: stdout_no_source cairo_line_not_cannot_get)
  next
    case success
    with m show ?thesis by (auto simp: stdout_success cairo_line_not_progress)
  next
    case (failure pre sz post e)
    with m show ?thesis by (auto simp: stdout_failure cairo_line_not_progress)
  qed
  then show "binding_installed h" and "import_cairosvg h = Some OSError" by simp_all
qed

theorem binding_absence_masks_native_absence_witness:
  "stdout (convert_icons bare_host good_fs) = [msg_need_cairosvg]
   \<and> fst (convert_icons bare_host good_fs) = SysExit 1
   \<and> convert_icons (bare_host\<lparr>native_engine_present := True\<rparr>) good_fs
       = convert_icons bare_host good_fs
   \<and> msg_cairo_missing \<in> set (stdout (convert_icons no_native_host good_fs))
   \<and> binding_installed no_native_host
   \<and> import_cairosvg no_native_host = Some OSError"
proof -
  have nb: "\<not> binding_installed bare_host" by (simp add: host_defs)
  have m: "msg_cairo_missing \<in> set (stdout (convert_icons no_native_host good_fs))"
    by (simp add: stdout_def convert_icons_def import_cairosvg_def host_defs emit_def print_def)
  from nb m binding_absence_masks_native_absence [of bare_host good_fs True]
    binding_absence_masks_native_absence [of no_native_host good_fs True]
  show ?thesis by simp
qed

subsection \<open>A failed precondition writes nothing\<close>

text \<open>
  Claim C2. When the native engine is missing, the binding is missing or the source file
  does not exist, the rasterizer is never called, the file system is left as it was, and the
  exit status is 1. When all three preconditions hold and every rasterizer call returns, the
  exit status is 0 and the rasterizer has been called once for each of the four output
  names. So a failed precondition never leaves some of the outputs behind.
\<close>

theorem precondition_failure_writes_nothing:
  "(\<not> native_engine_present h \<or> \<not> binding_installed h
      \<or> \<not> os_path_exists fs (cwd h) (svg_file h) \<longrightarrow>
      calls (events (snd (convert_icons h fs))) = []
      \<and> files (snd (convert_icons h fs)) = fs
      \<and> exit_status (fst (convert_icons h fs)) = 1)
   \<and> (native_engine_present h \<and> binding_installed h
        \<and> os_path_exists fs (cwd h) (svg_file h)
        \<and> every_call_succeeds h (svg_file h) sizes fs \<longrightarrow>
      exit_status (fst (convert_icons h fs)) = 0
      \<and> map (fst \<circ> snd) (calls (events (snd (convert_icons h fs)))) = map out_file sizes)"
proof (intro conjI impI)
  assume bad: "\<not> native_engine_present h \<or> \<not> binding_installed h
      \<or> \<not> os_path_exists fs (cwd h) (svg_file h)"
  have "calls (events (snd (convert_icons h fs))) = []
      \<and> files (snd (convert_icons h fs)) = fs
      \<and> exit_status (fst (convert_icons h fs)) = 1"
  proof (cases rule: run_cases [of h _ fs])
    case no_native
    then show ?thesis by (simp add: run_no_native)
  next
    case no_binding
    then show ?thesis by (simp add: run_no_binding)
  next
    case no_source
    then show ?thesis by (simp add: run_no_source)
  next
    case success
    with bad show ?thesis by simp
  next
    case (failure pre sz post e)
    with bad show ?thesis by simp
  qed
  then show "calls (events (snd (convert_icons h fs))) = []"
    and "files (snd (convert_icons h fs)) = fs"
    and "exit_status (fst (convert_icons h fs)) = 1" by simp_all
next
  assume ok: "native_engine_present h \<and> binding_installed h
        \<and> os_path_exists fs (cwd h) (svg_file h)
        \<and> every_call_succeeds h (svg_file h) sizes fs"
  then have i: "import_cairosvg h = None" by (simp add: import_cairosvg_def)
  from ok i show "exit_status (fst (convert_icons h fs)) = 0" by (simp add: run_success)
  from ok i show "map (fst \<circ> snd) (calls (events (snd (convert_icons h fs)))) = map out_file sizes"
    by (simp add: run_success calls_loop_events comp_def)
qed

lemma good_run:
  "convert_icons good_host good_fs =
     (Finished,
      \<lparr>files = good_fs(''/w/chat-icon-16.png'' \<mapsto> File True (Png 16 16),
                       ''/w/chat-icon-48.png'' \<mapsto> File True (Png 48 48),
                       ''/w/chat-icon-128.png'' \<mapsto> File True (Png 128 128),
                       ''/w/chat-icon-300.png'' \<mapsto> File True (Png 300 300)),
       events = [EvImport, EvExists ''/x/tools/chat-icon.svg'',
                 EvSvg2png ''/x/tools/chat-icon.svg'' ''chat-icon-16.png'' 16 16,
                 EvPrint (msg_converted ''chat-icon-16.png''),
                 EvSvg2png ''/x/tools/chat-icon.svg'' ''chat-icon-48.png'' 48 48,
                 EvPrint (msg_converted ''chat-icon-48.png''),
                 EvSvg2png ''/x/tools/chat-icon.svg'' ''chat-icon-128.png'' 128 128,
                 EvPrint (msg_converted ''chat-icon-128.png''),
                 EvSvg2png ''/x/tools/chat-icon.svg'' ''chat-icon-300.png'' 300 300,
                 EvPrint (msg_converted ''chat-icon-300.png'')]\<rparr>)"
  by (simp add: host_defs run_defs good_fs_def)

lemma good_host_facts:
  "import_cairosvg good_host = None" "binding_installed good_host" "native_engine_present good_host"
  "svg_file good_host = ''/x/tools/chat-icon.svg''" "cwd good_host = ''/w''"
  "svg2png good_host = reference_svg2png"
  by (simp_all add: host_defs import_cairosvg_def svg_file_def os_path_join_def os_path_dirname_def)

lemma good_fs_exists: "os_path_exists good_fs (cwd good_host) (svg_file good_host)"
  by (simp add: good_host_facts os_path_exists_def resolve_def good_fs_def)

lemma good_calls_succeed: "every_call_succeeds good_host (svg_file good_host) sizes good_fs"
  by (simp add: good_host_facts sizes_def render_call_def reference_svg2png_def resolve_def
      good_fs_def out_file_def str_int_def digits.simps)

theorem precondition_failure_writes_nothing_witness:
  "calls (events (snd (convert_icons no_native_host good_fs))) = []
   \<and> files (snd (convert_icons no_native_host good_fs)) = good_fs
   \<and> exit_status (fst (convert_icons no_native_host good_fs)) = 1
   \<and> calls (events (snd (convert_icons good_host empty_fs))) = []
   \<and> files (snd (convert_icons good_host empty_fs)) = empty_fs
   \<and> exit_status (fst (convert_icons good_host empty_fs)) = 1
   \<and> exit_status (fst (convert_icons good_host good_fs)) = 0
   \<and> map (fst \<circ> snd) (calls (events (snd (convert_icons good_host good_fs))))
       = [''chat-icon-16.png'', ''chat-icon-48.png'', ''chat-icon-128.png'', ''chat-icon-300.png'']"
proof -
  have a: "\<not> native_engine_present no_native_host" by (simp add: host_defs)
  have b: "\<not> os_path_exists empty_fs (cwd good_host) (svg_file good_host)"
    by (simp add: os_path_exists_def empty_fs_def)
  have c: "map out_file sizes
       = [''chat-icon-16.png'', ''chat-icon-48.png'', ''chat-icon-128.png'', ''chat-icon-300.png'']"
    by (simp add: sizes_def out_file_def str_int_def digits.simps)
  from a b c good_host_facts good_fs_exists good_calls_succeed
    precondition_failure_writes_nothing [of no_native_host good_fs]
    precondition_failure_writes_nothing [of good_host empty_fs]
    precondition_failure_writes_nothing [of good_host good_fs]
  show ?thesis by simp
qed

subsection \<open>The dependency check comes first\<close>

lemma events_start_with_import: "\<exists>rest. events (snd (convert_icons h fs)) = EvImport # rest"
proof (cases rule: run_cases [of h _ fs])
  case no_native
  then show ?thesis by (simp add: run_no_native)
next
  case no_binding
  then show ?thesis by (simp add: run_no_binding)
next
  case no_source
  then show ?thesis by (simp add: run_no_source)
next
  case success
  then show ?thesis by (simp add: run_success)
next
  case (failure pre sz post e)
  then show ?thesis by (simp add: run_failure)
qed

text \<open>
  Claim C3. When the native engine is not on the host, the run prints a dependency
  diagnostic (the native-engine one when the binding is installed, as it must be for the
  engine to be loaded at all), exits with status 1, and performs no existence check and no
  rasterizer call, so the source file is never touched. In every run the first action is the
  import, and an existence check occurs only in runs whose import succeeded.
\<close>

theorem dependency_check_precedes_source_check:
  "(\<not> native_engine_present h \<longrightarrow>
      (stdout (convert_icons h fs) = [msg_cairo_missing, msg_windows, msg_linux, msg_macos]
       \<or> stdout (convert_icons h fs) = [msg_need_cairosvg])
      \<and> (binding_installed h \<longrightarrow>
           stdout (convert_icons h fs) = [msg_cairo_missing, msg_windows, msg_linux, msg_macos])
      \<and> exit_status (fst (convert_icons h fs)) = 1
      \<and> exists_checks (events (snd (convert_icons h fs))) = []
      \<and> calls (events (snd (convert_icons h fs))) = []
      \<and> files (snd (convert_icons h fs)) = fs)
   \<and> (\<exists>rest. events (snd (convert_icons h fs)) = EvImport # rest)
   \<and> (exists_checks (events (snd (convert_icons h fs))) \<noteq> [] \<longrightarrow> import_cairosvg h = None)"
proof -
  have a: "\<not> native_engine_present h \<longrightarrow>
      (stdout (convert_icons h fs) = [msg_cairo_missing, msg_windows, msg_linux, msg_macos]
       \<or> stdout (convert_icons h fs) = [msg_need_cairosvg])
      \<and> (binding_installed h \<longrightarrow>
           stdout (convert_icons h fs) = [msg_cairo_missing, msg_windows, msg_linux, msg_macos])
      \<and> exit_status (fst (convert_icons h fs)) = 1
      \<and> exists_checks (events (snd (convert_icons h fs))) = []
      \<and> calls (events (snd (convert_icons h fs))) = []
      \<and> files (snd (convert_icons h fs)) = fs"
  proof
    assume nn: "\<not> native_engine_present h"
    show "(stdout (convert_icons h fs) = [msg_cairo_missing, msg_windows, msg_linux, msg_macos]
       \<or> stdout (convert_icons h fs) = [msg_need_cairosvg])
      \<and> (binding_installed h \<longrightarrow>
           stdout (convert_icons h fs) = [msg_cairo_missing, msg_windows, msg_linux, msg_macos])
      \<and> exit_status (fst (convert_icons h fs)) = 1
      \<and> exists_checks (events (snd (convert_icons h fs))) = []
      \<and> calls (events (snd (convert_icons h fs))) = []
      \<and> files (snd (convert_icons h fs)) = fs"
    proof (cases "binding_installed h")
      case True
      with nn have "import_cairosvg h = Some OSError" by (simp add: import_cairosvg_def)
      with True show ?thesis by (simp add: run_no_native stdout_def)
    next
      case False
      then have "import_cairosvg h = Some ModuleNotFoundError" by (simp add: import_cairosvg_def)
      with False show ?thesis by (simp add: run_no_binding stdout_def)
    qed
  qed
  have c: "exists_checks (events (snd (convert_icons h fs))) \<noteq> [] \<longrightarrow> import_cairosvg h = None"
  proof (cases "import_cairosvg h")
    case None
    then show ?thesis by simp
  next
    case (Some e)
    with import_cases [of h] have "e = OSError \<or> e = ModuleNotFoundError" by auto
    with Some show ?thesis by (auto simp: run_no_native run_no_binding)
  qed
  from a events_start_with_import [of h fs] c show ?thesis by blast
qed

theorem dependency_check_precedes_source_check_witness:
  "stdout (convert_icons no_native_host good_fs)
     = [msg_cairo_missing, msg_windows, msg_linux, msg_macos]
   \<and> exit_status (fst (convert_icons no_native_host good_fs)) = 1
   \<and> exists_checks (events (snd (convert_icons no_native_host good_fs))) = []
   \<and> calls (events (snd (convert_icons no_native_host good_fs))) = []
   \<and> files (snd (convert_icons no_native_host good_fs)) = good_fs
   \<and> stdout (convert_icons bare_host good_fs) = [msg_need_cairosvg]
   \<and> exists_checks (events (snd (convert_icons bare_host good_fs))) = []
   \<and> exists_checks (events (snd (convert_icons good_host good_fs))) = [''/x/tools/chat-icon.svg'']
   \<and> import_cairosvg good_host = None
   \<and> hd (events (snd (convert_icons good_host good_fs))) = EvImport"
proof -
  have a: "\<not> native_engine_present no_native_host" "binding_installed no_native_host"
    "\<not> native_engine_present bare_host"
    by (simp_all add: host_defs)
  have b: "stdout (convert_icons bare_host good_fs) = [msg_need_cairosvg]"
    by (rule stdout_no_binding) (simp add: host_defs import_cairosvg_def)
  have c: "exists_checks (events (snd (convert_icons good_host good_fs)))
      = [''/x/tools/chat-icon.svg'']"
    by (simp add: good_run)
  from dependency_check_precedes_source_check [of good_host good_fs]
  have d: "hd (events (snd (convert_icons good_host good_fs))) = EvImport"
    and e: "import_cairosvg good_host = None"
    using c by auto
  from a b c d e dependency_check_precedes_source_check [of no_native_host good_fs]
    dependency_check_precedes_source_check [of bare_host good_fs]
  show ?thesis by simp
qed

subsection \<open>The missing source file\<close>

lemma path_in_cannot_get: "suffix p (msg_cannot_get p)"
  by (simp add: msg_cannot_get_def suffix_def)

text \<open>
  Claim C7, as amended. When no file exists at the resolved source path, the run calls the
  rasterizer not at all, leaves the file system as it was and exits with status 1; and when
  the import of the rasterizer succeeded, its standard output is the one line that ends
  with that path, printed after the one existence check of that path.

  The claim as stated does not hold: it promises the message that names the path in every
  run without the source file, but a run whose import fails ends in the import's
  \<^verbatim>\<open>except\<close> branch and prints the dependency diagnostic, which does not
  contain the path.
\<close>

theorem missing_source_reported:
  "\<not> os_path_exists fs (cwd h) (svg_file h) \<Longrightarrow>
   calls (events (snd (convert_icons h fs))) = []
   \<and> files (snd (convert_icons h fs)) = fs
   \<and> exit_status (fst (convert_icons h fs)) = 1
   \<and> (import_cairosvg h = None \<longrightarrow>
        stdout (convert_icons h fs) = [msg_cannot_get (svg_file h)]
        \<and> suffix (svg_file h) (msg_cannot_get (svg_file h))
        \<and> exists_checks (events (snd (convert_icons h fs))) = [svg_file h])"
proof -
  assume missing: "\<not> os_path_exists fs (cwd h) (svg_file h)"
  show ?thesis
  proof (cases rule: run_cases [of h _ fs])
    case no_native
    then show ?thesis by (simp add: run_no_native)
  next
    case no_binding
    then show ?thesis by (simp add: run_no_binding)
  next
    case no_source
    then show ?thesis by (simp add: run_no_source stdout_def path_in_cannot_get)
  next
    case success
    with missing show ?thesis by simp
  next
    case (failure pre sz post e)
    with missing show ?thesis by simp
  qed
qed

theorem missing_source_reported_witness:
  "\<not> os_path_exists empty_fs (cwd good_host) (svg_file good_host)
   \<and> calls (events (snd (convert_icons good_host empty_fs))) = []
   \<and> files (snd (convert_icons good_host empty_fs)) = empty_fs
   \<and> exit_status (fst (convert_icons good_host empty_fs)) = 1
   \<and> stdout (convert_icons good_host empty_fs) = [msg_cannot_get ''/x/tools/chat-icon.svg'']
   \<and> suffix ''/x/tools/chat-icon.svg'' (msg_cannot_get ''/x/tools/chat-icon.svg'')
   \<and> exists_checks (events (snd (convert_icons good_host empty_fs))) = [''/x/tools/chat-icon.svg'']"
proof -
  have m: "\<not> os_path_exists empty_fs (cwd good_host) (svg_file good_host)"
    by (simp add: os_path_exists_def empty_fs_def)
  from m good_host_facts missing_source_reported [OF m] show ?thesis by simp
qed

theorem missing_source_message_counterexample:
  "\<not> os_path_exists empty_fs (cwd no_binding_host) (svg_file no_binding_host)
   \<and> stdout (convert_icons no_binding_host empty_fs) = [msg_need_cairosvg]
   \<and> \<not> sublist (svg_file no_binding_host) msg_need_cairosvg"
proof -
  have a: "\<not> os_path_exists empty_fs (cwd no_binding_host) (svg_file no_binding_host)"
    by (simp add: os_path_exists_def empty_fs_def)
  have b: "stdout (convert_icons no_binding_host empty_fs) = [msg_need_cairosvg]"
    by (rule stdout_no_binding) (simp add: host_defs import_cairosvg_def)
  have "CHR ''/'' \<in> set (svg_file no_binding_host)"
    by (simp add: host_defs svg_file_def os_path_join_def os_path_dirname_def)
  moreover have "CHR ''/'' \<notin> set msg_need_cairosvg"
    by (simp add: msg_defs)
  ultimately have c: "\<not> sublist (svg_file no_binding_host) msg_need_cairosvg"
    using set_mono_sublist by blast
  from a b c show ?thesis by simp
qed

subsection \<open>The existence check admits any entry\<close>

lemma cannot_get_not_progress: "msg_cannot_get p \<noteq> msg_converted x"
  by (simp add: msg_defs)

lemma out_file_names:
  "out_file 16 = ''chat-icon-16.png''" "out_file 48 = ''chat-icon-48.png''"
  "out_file 128 = ''chat-icon-128.png''" "out_file 300 = ''chat-icon-300.png''"
  by (simp_all add: out_file_def str_int_def digits.simps)

lemma first_call:
  assumes "sizes = pre @ sz # post"
  shows "\<exists>rest. map (\<lambda>s. (svg, out_file s, s, s)) (pre @ [sz])
            = (svg, ''chat-icon-16.png'', 16, 16) # rest"
  using assms by (cases pre) (auto simp: sizes_def out_file_names)

lemma dir_run:
  "convert_icons good_host dir_fs =
     (Uncaught IsADirectoryError,
      \<lparr>files = dir_fs,
       events = [EvImport, EvExists ''/x/tools/chat-icon.svg'',
                 EvSvg2png ''/x/tools/chat-icon.svg'' ''chat-icon-16.png'' 16 16]\<rparr>)"
  by (simp add: host_defs run_defs dir_fs_def)

lemma unreadable_run:
  "convert_icons good_host unreadable_fs =
     (Uncaught PermissionError,
      \<lparr>files = unreadable_fs,
       events = [EvImport, EvExists ''/x/tools/chat-icon.svg'',
                 EvSvg2png ''/x/tools/chat-icon.svg'' ''chat-icon-16.png'' 16 16]\<rparr>)"
  by (simp add: host_defs run_defs unreadable_fs_def)

text \<open>
  Claim C10. The source-file check passes for every kind of entry at the resolved path. When
  the import succeeded and any entry is there, the run does not take the exit of the
  missing-source check: the line of that check is not printed, the run does not end in
  \<^verbatim>\<open>sys.exit\<close>, and the rasterizer is called for size 16 on that path. If that
  call raises, the run ends with the exception uncaught, nothing printed, and the file
  system as the call left it. The failure inside the loop is reachable with the check
  passed: with the reference rasterizer a directory at the source path ends the run in
  \<open>IsADirectoryError\<close> and a file the user may not open in \<open>PermissionError\<close>.
\<close>

theorem existence_check_admits_any_entry:
  "(fs (resolve (cwd h) (svg_file h)) = Some entry \<longrightarrow> os_path_exists fs (cwd h) (svg_file h))
   \<and> (import_cairosvg h = None \<and> fs (resolve (cwd h) (svg_file h)) = Some entry \<longrightarrow>
        (\<exists>rest. calls (events (snd (convert_icons h fs)))
                  = (svg_file h, ''chat-icon-16.png'', 16, 16) # rest)
        \<and> msg_cannot_get (svg_file h) \<notin> set (stdout (convert_icons h fs))
        \<and> (\<forall>n. fst (convert_icons h fs) \<noteq> SysExit n)
        \<and> (\<forall>e. fst (render_call h (svg_file h) fs 16) = Some e \<longrightarrow>
              fst (convert_icons h fs) = Uncaught e
              \<and> stdout (convert_icons h fs) = []
              \<and> files (snd (convert_icons h fs)) = snd (render_call h (svg_file h) fs 16)))
   \<and> os_path_exists dir_fs (cwd good_host) (svg_file good_host)
   \<and> fst (convert_icons good_host dir_fs) = Uncaught IsADirectoryError
   \<and> os_path_exists unreadable_fs (cwd good_host) (svg_file good_host)
   \<and> fst (convert_icons good_host unreadable_fs) = Uncaught PermissionError"
proof -
  have a: "fs (resolve (cwd h) (svg_file h)) = Some entry \<longrightarrow> os_path_exists fs (cwd h) (svg_file h)"
    by (simp add: os_path_exists_def)
  have b: "import_cairosvg h = None \<and> fs (resolve (cwd h) (svg_file h)) = Some entry \<longrightarrow>
        (\<exists>rest. calls (events (snd (convert_icons h fs)))
                  = (svg_file h, ''chat-icon-16.png'', 16, 16) # rest)
        \<and> msg_cannot_get (svg_file h) \<notin> set (stdout (convert_icons h fs))
        \<and> (\<forall>n. fst (convert_icons h fs) \<noteq> SysExit n)
        \<and> (\<forall>e. fst (render_call h (svg_file h) fs 16) = Some e \<longrightarrow>
              fst (convert_icons h fs) = Uncaught e
              \<and> stdout (convert_icons h fs) = []
              \<and> files (snd (convert_icons h fs)) = snd (render_call h (svg_file h) fs 16))"
  proof
    assume "import_cairosvg h = None \<and> fs (resolve (cwd h) (svg_file h)) = Some entry"
    then have imp: "import_cairosvg h = None"
      and ex: "os_path_exists fs (cwd h) (svg_file h)"
      by (simp_all add: os_path_exists_def)
    have first_fails: "\<forall>e. fst (render_call h (svg_file h) fs 16) = Some e \<longrightarrow>
              fst (convert_icons h fs) = Uncaught e
              \<and> stdout (convert_icons h fs) = []
              \<and> files (snd (convert_icons h fs)) = snd (render_call h (svg_file h) fs 16)"
    proof (intro allI impI)
      fix e assume f: "fst (render_call h (svg_file h) fs 16) = Some e"
      have s: "sizes = [] @ 16 # [48, 128, 300]" by (simp add: sizes_def)
      have "convert_icons h fs =
         (Uncaught e,
          \<lparr>files = snd (render_call h (svg_file h) (files_after h (svg_file h) [] fs) 16),
           events = [EvImport, EvExists (svg_file h)] @ loop_events (svg_file h) []
                    @ [EvSvg2png (svg_file h) (out_file 16) 16 16]\<rparr>)"
        using imp ex s by (rule run_failure) (simp_all add: f)
      then show "fst (convert_icons h fs) = Uncaught e
              \<and> stdout (convert_icons h fs) = []
              \<and> files (snd (convert_icons h fs)) = snd (render_call h (svg_file h) fs 16)"
        by (simp add: stdout_def)
    qed
    have rest: "(\<exists>rest. calls (events (snd (convert_icons h fs)))
                  = (svg_file h, ''chat-icon-16.png'', 16, 16) # rest)
        \<and> msg_cannot_get (svg_file h) \<notin> set (stdout (convert_icons h fs))
        \<and> (\<forall>n. fst (convert_icons h fs) \<noteq> SysExit n)"
    proof (cases rule: run_cases [of h _ fs])
      case no_native
      with imp show ?thesis by simp
    next
      case no_binding
      with imp show ?thesis by simp
    next
      case no_source
      with ex show ?thesis by simp
    next
      case success
      then show ?thesis
        by (auto simp: run_success stdout_def calls_loop_events printed_loop_events
            cannot_get_not_progress sizes_def out_file_names)
    next
      case (failure pre sz post e)
      from first_call [OF failure(5), of "svg_file h"] obtain rest where
        r: "map (\<lambda>s. (svg_file h, out_file s, s, s)) (pre @ [sz])
            = (svg_file h, ''chat-icon-16.png'', 16, 16) # rest" by auto
      have c: "calls (events (snd (convert_icons h fs)))
          = map (\<lambda>s. (svg_file h, out_file s, s, s)) (pre @ [sz])"
        using failure by (simp add: run_failure calls_append calls_loop_events)
      have p: "stdout (convert_icons h fs) = map (\<lambda>s. msg_converted (out_file s)) pre"
        using failure by (simp add: stdout_failure)
      have o: "fst (convert_icons h fs) = Uncaught e"
        using failure by (simp add: run_failure)
      from c r p o show ?thesis by (auto simp: cannot_get_not_progress)
    qed
    from rest first_fails show "(\<exists>rest. calls (events (snd (convert_icons h fs)))
                  = (svg_file h, ''chat-icon-16.png'', 16, 16) # rest)
        \<and> msg_cannot_get (svg_file h) \<notin> set (stdout (convert_icons h fs))
        \<and> (\<forall>n. fst (convert_icons h fs) \<noteq> SysExit n)
        \<and> (\<forall>e. fst (render_call h (svg_file h) fs 16) = Some e \<longrightarrow>
              fst (convert_icons h fs) = Uncaught e
              \<and> stdout (convert_icons h fs) = []
              \<and> files (snd (convert_icons h fs)) = snd (render_call h (svg_file h) fs 16))"
      by blast
  qed
  have c: "os_path_exists dir_fs (cwd good_host) (svg_file good_host)"
    "os_path_exists unreadable_fs (cwd good_host) (svg_file good_host)"
    by (simp_all add: good_host_facts os_path_exists_def resolve_def dir_fs_def unreadable_fs_def)
  have d: "fst (convert_icons good_host dir_fs) = Uncaught IsADirectoryError"
    "fst (convert_icons good_host unreadable_fs) = Uncaught PermissionError"
    by (simp_all add: dir_run unreadable_run)
  from a b c d show ?thesis by blast
qed

theorem existence_check_admits_any_entry_witness:
  "import_cairosvg good_host = None
   \<and> dir_fs (resolve (cwd good_host) (svg_file good_host)) = Some Directory
   \<and> os_path_exists dir_fs (cwd good_host) (svg_file good_host)
   \<and> fst (render_call good_host (svg_file good_host) dir_fs 16) = Some IsADirectoryError
   \<and> calls (events (snd (convert_icons good_host dir_fs)))
       = [(''/x/tools/chat-icon.svg'', ''chat-icon-16.png'', 16, 16)]
   \<and> msg_cannot_get (svg_file good_host) \<notin> set (stdout (convert_icons good_host dir_fs))
   \<and> fst (convert_icons good_host dir_fs) = Uncaught IsADirectoryError
   \<and> stdout (convert_icons good_host dir_fs) = []
   \<and> files (snd (convert_icons good_host dir_fs)) = dir_fs"
proof -
  have a: "dir_fs (resolve (cwd good_host) (svg_file good_host)) = Some Directory"
    by (simp add: good_host_facts resolve_def dir_fs_def)
  have b: "render_call good_host (svg_file good_host) dir_fs 16 = (Some IsADirectoryError, dir_fs)"
    by (simp add: good_host_facts render_call_def reference_svg2png_def resolve_def dir_fs_def)
  have c: "calls (events (snd (convert_icons good_host dir_fs)))
       = [(''/x/tools/chat-icon.svg'', ''chat-icon-16.png'', 16, 16)]"
    by (simp add: dir_run)
  from a b c good_host_facts(1)
    existence_check_admits_any_entry [of dir_fs good_host Directory]
  show ?thesis by simp
qed

subsection \<open>A failure inside the loop\<close>

lemma reference_writes_only_target: "writes_only_target reference_svg2png"
  unfolding writes_only_target_def reference_svg2png_def
  by (auto split: option.splits node.splits)

lemma reference_tolerates_outputs: "tolerates_outputs reference_svg2png"
  unfolding tolerates_outputs_def
proof (intro allI impI)
  fix fs fs' :: filesystem and wd url out :: path and width height :: int
  assume agree: "\<forall>p. fs' p = fs p
      \<or> (p \<noteq> resolve wd url \<and> (\<exists>a b. fs' p = Some (File True (Png a b))))"
    and ok: "fst (reference_svg2png fs wd url out width height) = None"
  from agree have src: "fs' (resolve wd url) = fs (resolve wd url)" by blast
  from agree have tgt: "fs' (resolve wd out) = fs (resolve wd out)
      \<or> (\<exists>a b. fs' (resolve wd out) = Some (File True (Png a b)))" by blast
  from ok have s: "fs (resolve wd url) = Some (File True Svg)"
    by (auto simp: reference_svg2png_def split: option.splits node.splits if_splits)
  from ok s have t: "fs (resolve wd out) = None \<or> (\<exists>c. fs (resolve wd out) = Some (File True c))"
    by (auto simp: reference_svg2png_def split: option.splits node.splits if_splits)
  from tgt t have t': "fs' (resolve wd out) = None \<or> (\<exists>c. fs' (resolve wd out) = Some (File True c))"
    by auto
  from src s t' show "fst (reference_svg2png fs' wd url out width height) = None"
    by (auto simp: reference_svg2png_def)
qed

lemma call_writes:
  "writes_only_target (svg2png h) \<Longrightarrow> fst (render_call h svg fs s) = None \<Longrightarrow>
   snd (render_call h svg fs s) = fs(target h s \<mapsto> png_file s)"
  by (simp add: writes_only_target_def render_call_def target_def png_file_def)

lemma call_frame:
  "writes_only_target (svg2png h) \<Longrightarrow> p \<noteq> target h s \<Longrightarrow>
   snd (render_call h svg fs s) p = fs p"
  by (simp add: writes_only_target_def render_call_def target_def)

lemma files_after_with_outputs:
  "writes_only_target (svg2png h) \<Longrightarrow> every_call_succeeds h svg ss fs \<Longrightarrow>
   files_after h svg ss fs = with_outputs h ss fs"
proof (induction ss arbitrary: fs)
  case Nil
  then show ?case by simp
next
  case (Cons a ss)
  from Cons.prems have ok: "fst (render_call h svg fs a) = None"
    and rest: "every_call_succeeds h svg ss (snd (render_call h svg fs a))" by simp_all
  from Cons.prems(1) ok have w: "snd (render_call h svg fs a) = fs(target h a \<mapsto> png_file a)"
    by (rule call_writes)
  have "files_after h svg (a # ss) fs = files_after h svg ss (snd (render_call h svg fs a))"
    by simp
  also have "\<dots> = with_outputs h ss (snd (render_call h svg fs a))"
    by (rule Cons.IH [OF Cons.prems(1) rest])
  also have "\<dots> = with_outputs h (a # ss) fs"
    by (simp only: w with_outputs.simps)
  finally show ?case .
qed

lemma with_outputs_other:
  "p \<notin> target h ` set ss \<Longrightarrow> with_outputs h ss fs p = fs p"
  by (induction ss arbitrary: fs) simp_all

lemma with_outputs_at:
  "inj_on (target h) (set ss) \<Longrightarrow> s \<in> set ss \<Longrightarrow>
   with_outputs h ss fs (target h s) = Some (png_file s)"
proof (induction ss arbitrary: fs)
  case Nil
  then show ?case by simp
next
  case (Cons a ss)
  have inj: "inj_on (target h) (set ss)" using Cons.prems(1) by (simp add: inj_on_def)
  show ?case
  proof (cases "s \<in> set ss")
    case True
    with Cons.IH [OF inj] show ?thesis by simp
  next
    case False
    with Cons.prems(2) have sa: "s = a" by simp
    have "target h a \<notin> target h ` set ss"
    proof
      assume "target h a \<in> target h ` set ss"
      then obtain b where b: "b \<in> set ss" "target h a = target h b" by blast
      with Cons.prems(1) have "a = b" by (simp add: inj_on_def)
      with b False sa show False by simp
    qed
    with sa show ?thesis by (simp add: with_outputs_other)
  qed
qed

lemma target_eq: "target h s = cwd h @ ''/'' @ out_file s"
  by (simp add: target_def resolve_def out_file_def)

lemma targets_of_sizes:
  "target h 16 = cwd h @ ''/chat-icon-16.png''" "target h 48 = cwd h @ ''/chat-icon-48.png''"
  "target h 128 = cwd h @ ''/chat-icon-128.png''" "target h 300 = cwd h @ ''/chat-icon-300.png''"
  by (simp_all add: target_eq out_file_names)

lemma targets_distinct: "distinct (map (target h) sizes)"
  by (simp add: sizes_def targets_of_sizes)

lemma targets_inj: "inj_on (target h) (set sizes)"
  using targets_distinct [of h] by (simp add: distinct_map)

lemma suffixes_differ:
  assumes "suffix a x" "suffix b y" "length a = length b" "a \<noteq> b"
  shows "x \<noteq> y"
proof
  assume "x = y"
  with assms(1,2) obtain u v where "x = u @ a" "x = v @ b" by (auto simp: suffix_def)
  with assms(3) have "a = b" by (metis append_eq_append_conv)
  with assms(4) show False by simp
qed

lemma join_suffix: "take 1 b \<noteq> ''/'' \<Longrightarrow> suffix b (os_path_join a b)"
  by (simp add: os_path_join_def suffix_def)

lemma resolve_suffix: "suffix p (resolve wd p)"
  by (simp add: resolve_def suffix_def)

lemma svg_file_suffix: "suffix ''.svg'' (resolve (cwd h) (svg_file h))"
proof -
  have "suffix ''chat-icon.svg'' (svg_file h)"
    unfolding svg_file_def by (rule join_suffix) simp
  moreover have "suffix ''.svg'' ''chat-icon.svg''" by (simp add: suffix_def)
  ultimately have "suffix ''.svg'' (svg_file h)" by (rule suffix_order.trans [rotated])
  then show ?thesis using resolve_suffix suffix_order.trans by blast
qed

lemma target_suffix: "suffix ''.png'' (target h s)"
  by (simp add: target_eq out_file_def suffix_def)

lemma source_not_target: "resolve (cwd h) (svg_file h) \<noteq> target h s"
  by (rule suffixes_differ [OF svg_file_suffix target_suffix]) simp_all

lemma out_files_distinct: "distinct (map out_file sizes)"
  by (simp add: sizes_def out_file_names)

text \<open>
  Claim C6. Suppose the loop is reached, the rasterizer calls for the sizes before some
  size of the list return and the call for that size raises \<open>e\<close>. Then the run ends with
  \<open>e\<close> uncaught and exit status 1; the rasterizer has been called for the sizes up to and
  including the failing one and for no output name of a later size; one progress line has
  been printed per size before the failing one; and the file system is exactly what the
  failing call left, nothing being undone. For a rasterizer that changes only the path it
  writes to, the outputs of all earlier sizes are still in place with their dimensions.
\<close>

theorem render_failure_aborts_without_rollback:
  assumes "import_cairosvg h = None"
    and "os_path_exists fs (cwd h) (svg_file h)"
    and "sizes = pre @ sz # post"
    and "every_call_succeeds h (svg_file h) pre fs"
    and "fst (render_call h (svg_file h) (files_after h (svg_file h) pre fs) sz) = Some e"
  shows "fst (convert_icons h fs) = Uncaught e
    \<and> exit_status (fst (convert_icons h fs)) = 1
    \<and> calls (events (snd (convert_icons h fs)))
        = map (\<lambda>s. (svg_file h, out_file s, s, s)) (pre @ [sz])
    \<and> (\<forall>s \<in> set post. \<forall>c \<in> set (calls (events (snd (convert_icons h fs)))).
          fst (snd c) \<noteq> out_file s)
    \<and> stdout (convert_icons h fs) = map (\<lambda>s. msg_converted (out_file s)) pre
    \<and> files (snd (convert_icons h fs))
        = snd (render_call h (svg_file h) (files_after h (svg_file h) pre fs) sz)
    \<and> (writes_only_target (svg2png h) \<longrightarrow>
         (\<forall>s \<in> set pre. files (snd (convert_icons h fs)) (target h s) = Some (png_file s)))"
proof -
  let ?r = "convert_icons h fs"
  let ?F = "snd (render_call h (svg_file h) (files_after h (svg_file h) pre fs) sz)"
  have run: "?r =
     (Uncaught e,
      \<lparr>files = ?F,
       events = [EvImport, EvExists (svg_file h)] @ loop_events (svg_file h) pre
                @ [EvSvg2png (svg_file h) (out_file sz) sz sz]\<rparr>)"
    using assms by (rule run_failure)
  have a: "fst ?r = Uncaught e" "exit_status (fst ?r) = 1" "files (snd ?r) = ?F"
    by (simp_all add: run)
  have c: "calls (events (snd ?r)) = map (\<lambda>s. (svg_file h, out_file s, s, s)) (pre @ [sz])"
    by (simp add: run calls_append calls_loop_events)
  have p: "stdout ?r = map (\<lambda>s. msg_converted (out_file s)) pre"
    using assms by (rule stdout_failure)
  have d: "distinct (map out_file (pre @ sz # post))"
    using out_files_distinct assms(3) by simp
  have later: "\<forall>s \<in> set post. \<forall>c \<in> set (calls (events (snd ?r))). fst (snd c) \<noteq> out_file s"
  proof (intro ballI)
    fix s c assume s: "s \<in> set post" and "c \<in> set (calls (events (snd ?r)))"
    with c have "c \<in> (\<lambda>s. (svg_file h, out_file s, s, s)) ` set (pre @ [sz])"
      by (simp only: set_map)
    then obtain s' where s': "s' \<in> set (pre @ [sz])" "c = (svg_file h, out_file s', s', s')"
      by (rule imageE)
    from d s s'(1) have "out_file s' \<noteq> out_file s" by auto
    with s'(2) show "fst (snd c) \<noteq> out_file s" by simp
  qed
  have kept: "writes_only_target (svg2png h) \<longrightarrow>
         (\<forall>s \<in> set pre. files (snd ?r) (target h s) = Some (png_file s))"
  proof (intro impI ballI)
    fix s assume w: "writes_only_target (svg2png h)" and s: "s \<in> set pre"
    have dt: "distinct (map (target h) (pre @ sz # post))"
      using targets_distinct [of h] assms(3) by simp
    then have "target h sz \<notin> target h ` set pre" by simp
    with s have ne: "target h s \<noteq> target h sz" by (metis imageI)
    from dt have inj: "inj_on (target h) (set pre)" by (simp add: distinct_map)
    have "?F (target h s) = files_after h (svg_file h) pre fs (target h s)"
      using w ne by (rule call_frame)
    also have "\<dots> = with_outputs h pre fs (target h s)"
      using w assms(4) by (simp add: files_after_with_outputs)
    also have "\<dots> = Some (png_file s)"
      using inj s by (rule with_outputs_at)
    finally show "files (snd ?r) (target h s) = Some (png_file s)" by (simp add: a)
  qed
  from a c later p kept show ?thesis by blast
qed

lemma blocked_run:
  "convert_icons good_host blocked_fs =
     (Uncaught IsADirectoryError,
      \<lparr>files = blocked_fs(''/w/chat-icon-16.png'' \<mapsto> File True (Png 16 16)),
       events = [EvImport, EvExists ''/x/tools/chat-icon.svg'',
                 EvSvg2png ''/x/tools/chat-icon.svg'' ''chat-icon-16.png'' 16 16,
                 EvPrint (msg_converted ''chat-icon-16.png''),
                 EvSvg2png ''/x/tools/chat-icon.svg'' ''chat-icon-48.png'' 48 48]\<rparr>)"
  by (simp add: host_defs run_defs blocked_fs_def good_fs_def)

theorem render_failure_aborts_without_rollback_witness:
  "fst (convert_icons good_host blocked_fs) = Uncaught IsADirectoryError
   \<and> exit_status (fst (convert_icons good_host blocked_fs)) = 1
   \<and> calls (events (snd (convert_icons good_host blocked_fs)))
       = [(''/x/tools/chat-icon.svg'', ''chat-icon-16.png'', 16, 16),
          (''/x/tools/chat-icon.svg'', ''chat-icon-48.png'', 48, 48)]
   \<and> stdout (convert_icons good_host blocked_fs) = [msg_converted ''chat-icon-16.png'']
   \<and> files (snd (convert_icons good_host blocked_fs)) ''/w/chat-icon-16.png''
       = Some (File True (Png 16 16))
   \<and> files (snd (convert_icons good_host blocked_fs)) ''/w/chat-icon-128.png'' = None"
proof -
  have i: "import_cairosvg good_host = None" by (rule good_host_facts)
  have x: "os_path_exists blocked_fs (cwd good_host) (svg_file good_host)"
    by (simp add: good_host_facts os_path_exists_def resolve_def blocked_fs_def good_fs_def)
  have s: "sizes = [16] @ 48 # [128, 300]" by (simp add: sizes_def)
  have p: "every_call_succeeds good_host (svg_file good_host) [16] blocked_fs"
    by (simp add: good_host_facts render_call_def reference_svg2png_def resolve_def
        blocked_fs_def good_fs_def out_file_names)
  have f: "fst (render_call good_host (svg_file good_host)
        (files_after good_host (svg_file good_host) [16] blocked_fs) 48) = Some IsADirectoryError"
    by (simp add: good_host_facts render_call_def reference_svg2png_def resolve_def
        blocked_fs_def good_fs_def out_file_names)
  have w: "writes_only_target (svg2png good_host)"
    by (simp add: good_host_facts reference_writes_only_target)
  have "files (snd (convert_icons good_host blocked_fs))
      = blocked_fs(''/w/chat-icon-16.png'' \<mapsto> File True (Png 16 16))"
    by (simp add: blocked_run)
  then have n: "files (snd (convert_icons good_host blocked_fs)) ''/w/chat-icon-128.png'' = None"
    by (simp add: blocked_fs_def good_fs_def)
  note t = render_failure_aborts_without_rollback [OF i x s p f]
  from t have a: "fst (convert_icons good_host blocked_fs) = Uncaught IsADirectoryError"
    and b: "exit_status (fst (convert_icons good_host blocked_fs)) = 1"
    and c: "calls (events (snd (convert_icons good_host blocked_fs)))
        = map (\<lambda>s. (svg_file good_host, out_file s, s, s)) ([16] @ [48])"
    and d: "stdout (convert_icons good_host blocked_fs) = map (\<lambda>s. msg_converted (out_file s)) [16]"
    by blast+
  from t w have "\<forall>s \<in> set [16]. files (snd (convert_icons good_host blocked_fs))
      (target good_host s) = Some (png_file s)" by blast
  then have e: "files (snd (convert_icons good_host blocked_fs)) ''/w/chat-icon-16.png''
       = Some (File True (Png 16 16))"
    by (simp add: targets_of_sizes good_host_facts png_file_def)
  from a b c d e n show ?thesis
    by (simp add: out_file_names good_host_facts)
qed

subsection \<open>The successful run\<close>

text \<open>
  Claim C1, as amended. When the import succeeds, the source file exists and every
  rasterizer call of the loop returns, the run goes through the sizes 16, 48, 128, 300 in
  this order: for each size \<open>s\<close> it calls the rasterizer on the source path with
  \<^verbatim>\<open>write_to\<close> \<^verbatim>\<open>chat-icon-<s>.png\<close> and width and height \<open>s\<close>, and
  prints one progress line after the call; then it ends with exit status 0. For a rasterizer
  that writes only where it is told, the file system at the end is the initial one with
  exactly four distinct paths written, each a raster of its size.

  The claim as stated does not hold: with the capability available and the source file in
  place a rasterizer call can still raise, here because a directory is in the way of the
  second output, and the run then ends with status 1 after one output.
\<close>

theorem happy_path:
  assumes "import_cairosvg h = None"
    and "os_path_exists fs (cwd h) (svg_file h)"
    and "every_call_succeeds h (svg_file h) sizes fs"
  shows "fst (convert_icons h fs) = Finished
    \<and> exit_status (fst (convert_icons h fs)) = 0
    \<and> events (snd (convert_icons h fs)) =
         [EvImport, EvExists (svg_file h),
          EvSvg2png (svg_file h) ''chat-icon-16.png'' 16 16,
          EvPrint (msg_converted ''chat-icon-16.png''),
          EvSvg2png (svg_file h) ''chat-icon-48.png'' 48 48,
          EvPrint (msg_converted ''chat-icon-48.png''),
          EvSvg2png (svg_file h) ''chat-icon-128.png'' 128 128,
          EvPrint (msg_converted ''chat-icon-128.png''),
          EvSvg2png (svg_file h) ''chat-icon-300.png'' 300 300,
          EvPrint (msg_converted ''chat-icon-300.png'')]
    \<and> calls (events (snd (convert_icons h fs))) =
         [(svg_file h, ''chat-icon-16.png'', 16, 16), (svg_file h, ''chat-icon-48.png'', 48, 48),
          (svg_file h, ''chat-icon-128.png'', 128, 128),
          (svg_file h, ''chat-icon-300.png'', 300, 300)]
    \<and> stdout (convert_icons h fs) =
         [msg_converted ''chat-icon-16.png'', msg_converted ''chat-icon-48.png'',
          msg_converted ''chat-icon-128.png'', msg_converted ''chat-icon-300.png'']
    \<and> (writes_only_target (svg2png h) \<longrightarrow>
          files (snd (convert_icons h fs)) =
            fs(cwd h @ ''/chat-icon-16.png'' \<mapsto> File True (Png 16 16),
               cwd h @ ''/chat-icon-48.png'' \<mapsto> File True (Png 48 48),
               cwd h @ ''/chat-icon-128.png'' \<mapsto> File True (Png 128 128),
               cwd h @ ''/chat-icon-300.png'' \<mapsto> File True (Png 300 300))
          \<and> distinct [cwd h @ ''/chat-icon-16.png'', cwd h @ ''/chat-icon-48.png'',
                       cwd h @ ''/chat-icon-128.png'', cwd h @ ''/chat-icon-300.png''])"
proof -
  let ?r = "convert_icons h fs"
  have run: "?r =
     (Finished,
      \<lparr>files = files_after h (svg_file h) sizes fs,
       events = [EvImport, EvExists (svg_file h)] @ loop_events (svg_file h) sizes\<rparr>)"
    using assms by (rule run_success)
  have a: "fst ?r = Finished" "exit_status (fst ?r) = 0" by (simp_all add: run)
  have ev: "events (snd ?r) =
         [EvImport, EvExists (svg_file h),
          EvSvg2png (svg_file h) ''chat-icon-16.png'' 16 16,
          EvPrint (msg_converted ''chat-icon-16.png''),
          EvSvg2png (svg_file h) ''chat-icon-48.png'' 48 48,
          EvPrint (msg_converted ''chat-icon-48.png''),
          EvSvg2png (svg_file h) ''chat-icon-128.png'' 128 128,
          EvPrint (msg_converted ''chat-icon-128.png''),
          EvSvg2png (svg_file h) ''chat-icon-300.png'' 300 300,
          EvPrint (msg_converted ''chat-icon-300.png'')]"
    by (simp add: run sizes_def out_file_names)
  have c: "calls (events (snd ?r)) =
         [(svg_file h, ''chat-icon-16.png'', 16, 16), (svg_file h, ''chat-icon-48.png'', 48, 48),
          (svg_file h, ''chat-icon-128.png'', 128, 128),
          (svg_file h, ''chat-icon-300.png'', 300, 300)]"
    by (simp add: ev)
  have p: "stdout ?r =
         [msg_converted ''chat-icon-16.png'', msg_converted ''chat-icon-48.png'',
          msg_converted ''chat-icon-128.png'', msg_converted ''chat-icon-300.png'']"
    by (simp add: stdout_def ev)
  have f: "writes_only_target (svg2png h) \<longrightarrow>
          files (snd ?r) =
            fs(cwd h @ ''/chat-icon-16.png'' \<mapsto> File True (Png 16 16),
               cwd h @ ''/chat-icon-48.png'' \<mapsto> File True (Png 48 48),
               cwd h @ ''/chat-icon-128.png'' \<mapsto> File True (Png 128 128),
               cwd h @ ''/chat-icon-300.png'' \<mapsto> File True (Png 300 300))
          \<and> distinct [cwd h @ ''/chat-icon-16.png'', cwd h @ ''/chat-icon-48.png'',
                       cwd h @ ''/chat-icon-128.png'', cwd h @ ''/chat-icon-300.png'']"
  proof
    assume w: "writes_only_target (svg2png h)"
    have "files (snd ?r) = files_after h (svg_file h) sizes fs" by (simp add: run)
    also have "\<dots> = with_outputs h sizes fs"
      using w assms(3) by (rule files_after_with_outputs)
    also have "\<dots> = fs(cwd h @ ''/chat-icon-16.png'' \<mapsto> File True (Png 16 16),
               cwd h @ ''/chat-icon-48.png'' \<mapsto> File True (Png 48 48),
               cwd h @ ''/chat-icon-128.png'' \<mapsto> File True (Png 128 128),
               cwd h @ ''/chat-icon-300.png'' \<mapsto> File True (Png 300 300))"
      by (simp add: sizes_def targets_of_sizes png_file_def)
    finally have 1: "files (snd ?r) = fs(cwd h @ ''/chat-icon-16.png'' \<mapsto> File True (Png 16 16),
               cwd h @ ''/chat-icon-48.png'' \<mapsto> File True (Png 48 48),
               cwd h @ ''/chat-icon-128.png'' \<mapsto> File True (Png 128 128),
               cwd h @ ''/chat-icon-300.png'' \<mapsto> File True (Png 300 300))" .
    have 2: "distinct [cwd h @ ''/chat-icon-16.png'', cwd h @ ''/chat-icon-48.png'',
                       cwd h @ ''/chat-icon-128.png'', cwd h @ ''/chat-icon-300.png'']"
      by simp
    from 1 2 show "files (snd ?r) =
            fs(cwd h @ ''/chat-icon-16.png'' \<mapsto> File True (Png 16 16),
               cwd h @ ''/chat-icon-48.png'' \<mapsto> File True (Png 48 48),
               cwd h @ ''/chat-icon-128.png'' \<mapsto> File True (Png 128 128),
               cwd h @ ''/chat-icon-300.png'' \<mapsto> File True (Png 300 300))
          \<and> distinct [cwd h @ ''/chat-icon-16.png'', cwd h @ ''/chat-icon-48.png'',
                       cwd h @ ''/chat-icon-128.png'', cwd h @ ''/chat-icon-300.png'']"
      by (rule conjI)
  qed
  from a ev c p f show ?thesis by blast
qed

theorem happy_path_witness:
  "fst (convert_icons good_host good_fs) = Finished
   \<and> exit_status (fst (convert_icons good_host good_fs)) = 0
   \<and> calls (events (snd (convert_icons good_host good_fs))) =
        [(''/x/tools/chat-icon.svg'', ''chat-icon-16.png'', 16, 16),
         (''/x/tools/chat-icon.svg'', ''chat-icon-48.png'', 48, 48),
         (''/x/tools/chat-icon.svg'', ''chat-icon-128.png'', 128, 128),
         (''/x/tools/chat-icon.svg'', ''chat-icon-300.png'', 300, 300)]
   \<and> stdout (convert_icons good_host good_fs) =
        [msg_converted ''chat-icon-16.png'', msg_converted ''chat-icon-48.png'',
         msg_converted ''chat-icon-128.png'', msg_converted ''chat-icon-300.png'']
   \<and> files (snd (convert_icons good_host good_fs)) =
        good_fs(''/w/chat-icon-16.png'' \<mapsto> File True (Png 16 16),
                ''/w/chat-icon-48.png'' \<mapsto> File True (Png 48 48),
                ''/w/chat-icon-128.png'' \<mapsto> File True (Png 128 128),
                ''/w/chat-icon-300.png'' \<mapsto> File True (Png 300 300))"
proof -
  have w: "writes_only_target (svg2png good_host)"
    by (simp add: good_host_facts reference_writes_only_target)
  from happy_path [OF good_host_facts(1) good_fs_exists good_calls_succeed] w
  show ?thesis by (simp add: good_host_facts)
qed

theorem happy_path_counterexample:
  "import_cairosvg good_host = None
   \<and> blocked_fs (resolve (cwd good_host) (svg_file good_host)) = Some (File True Svg)
   \<and> os_path_exists blocked_fs (cwd good_host) (svg_file good_host)
   \<and> fst (convert_icons good_host blocked_fs) = Uncaught IsADirectoryError
   \<and> exit_status (fst (convert_icons good_host blocked_fs)) = 1
   \<and> calls (events (snd (convert_icons good_host blocked_fs)))
       = [(''/x/tools/chat-icon.svg'', ''chat-icon-16.png'', 16, 16),
          (''/x/tools/chat-icon.svg'', ''chat-icon-48.png'', 48, 48)]
   \<and> stdout (convert_icons good_host blocked_fs) = [msg_converted ''chat-icon-16.png'']"
proof -
  have a: "blocked_fs (resolve (cwd good_host) (svg_file good_host)) = Some (File True Svg)"
    by (simp add: good_host_facts resolve_def blocked_fs_def good_fs_def)
  then have b: "os_path_exists blocked_fs (cwd good_host) (svg_file good_host)"
    by (simp add: os_path_exists_def)
  from a b good_host_facts(1) show ?thesis by (simp add: blocked_run stdout_def)
qed

subsection \<open>Where the source is read and the outputs are written\<close>

lemma head_append:
  "CHR ''/'' \<notin> set b \<Longrightarrow>
   dropWhile (\<lambda>c. c \<noteq> CHR ''/'') (rev (x @ b)) = dropWhile (\<lambda>c. c \<noteq> CHR ''/'') (rev x)"
proof -
  assume "CHR ''/'' \<notin> set b"
  then have "\<And>c. c \<in> set (rev b) \<Longrightarrow> c \<noteq> CHR ''/''" by auto
  then have "dropWhile (\<lambda>c. c \<noteq> CHR ''/'') (rev b @ rev x)
      = dropWhile (\<lambda>c. c \<noteq> CHR ''/'') (rev x)"
    by (rule dropWhile_append2)
  then show ?thesis by simp
qed

lemma head_ends_with_slash:
  "d \<noteq> [] \<Longrightarrow> last d = CHR ''/'' \<Longrightarrow> dropWhile (\<lambda>c. c \<noteq> CHR ''/'') (rev d) = rev d"
  by (cases d rule: rev_cases) simp_all

lemma rstrip_no_slash:
  "d \<noteq> [] \<Longrightarrow> last d \<noteq> CHR ''/'' \<Longrightarrow> dropWhile (\<lambda>c. c = CHR ''/'') (rev d) = rev d"
  by (cases d rule: rev_cases) simp_all

lemma rstrip_result:
  "\<not> list_all (\<lambda>c. c = CHR ''/'') x \<Longrightarrow>
   rev (dropWhile (\<lambda>c. c = CHR ''/'') (rev x)) \<noteq> []
   \<and> last (rev (dropWhile (\<lambda>c. c = CHR ''/'') (rev x))) \<noteq> CHR ''/''"
proof -
  assume "\<not> list_all (\<lambda>c. c = CHR ''/'') x"
  then have "\<exists>c \<in> set (rev x). \<not> c = CHR ''/''" by (auto simp: list_all_iff)
  then have ne: "dropWhile (\<lambda>c. c = CHR ''/'') (rev x) \<noteq> []"
    by (simp add: dropWhile_eq_Nil_conv)
  then have "\<not> hd (dropWhile (\<lambda>c. c = CHR ''/'') (rev x)) = CHR ''/''"
    by (rule hd_dropWhile)
  moreover have "last (rev (dropWhile (\<lambda>c. c = CHR ''/'') (rev x)))
      = hd (dropWhile (\<lambda>c. c = CHR ''/'') (rev x))"
    by (rule last_rev)
  ultimately show ?thesis using ne by (simp only: rev_is_Nil_conv not_False_eq_True simp_thms)
qed

lemma dirname_unfold:
  "os_path_dirname p =
     (if rev (dropWhile (\<lambda>c. c \<noteq> CHR ''/'') (rev p)) \<noteq> []
         \<and> \<not> list_all (\<lambda>c. c = CHR ''/'') (rev (dropWhile (\<lambda>c. c \<noteq> CHR ''/'') (rev p)))
      then rev (dropWhile (\<lambda>c. c = CHR ''/'')
                  (rev (rev (dropWhile (\<lambda>c. c \<noteq> CHR ''/'') (rev p)))))
      else rev (dropWhile (\<lambda>c. c \<noteq> CHR ''/'') (rev p)))"
  by (simp only: os_path_dirname_def Let_def)

lemma dirname_cases:
  obtains (empty) "os_path_dirname p = []"
  | (root) "os_path_dirname p \<noteq> []" "last (os_path_dirname p) = CHR ''/''"
      "list_all (\<lambda>c. c = CHR ''/'') (os_path_dirname p)"
  | (dir) "os_path_dirname p \<noteq> []" "last (os_path_dirname p) \<noteq> CHR ''/''"
proof -
  define hd_part where "hd_part = rev (dropWhile (\<lambda>c. c \<noteq> CHR ''/'') (rev p))"
  have unfold: "os_path_dirname p =
     (if hd_part \<noteq> [] \<and> \<not> list_all (\<lambda>c. c = CHR ''/'') hd_part
      then rev (dropWhile (\<lambda>c. c = CHR ''/'') (rev hd_part)) else hd_part)"
    unfolding hd_part_def by (rule dirname_unfold)
  show thesis
  proof (cases "hd_part = []")
    case True
    with unfold have "os_path_dirname p = []" by simp
    then show ?thesis by (rule empty)
  next
    case ne: False
    show ?thesis
    proof (cases "list_all (\<lambda>c. c = CHR ''/'') hd_part")
      case True
      with unfold have d: "os_path_dirname p = hd_part" by simp
      from last_in_set [OF ne] True have l: "last hd_part = CHR ''/''"
        by (simp add: list_all_iff)
      show ?thesis
      proof (rule root)
        from d ne show "os_path_dirname p \<noteq> []" by simp
        from d l show "last (os_path_dirname p) = CHR ''/''" by simp
        from d True show "list_all (\<lambda>c. c = CHR ''/'') (os_path_dirname p)" by simp
      qed
    next
      case False
      with unfold ne
      have d: "os_path_dirname p = rev (dropWhile (\<lambda>c. c = CHR ''/'') (rev hd_part))"
        by simp
      note r = rstrip_result [OF False]
      show ?thesis
      proof (rule dir)
        from d r show "os_path_dirname p \<noteq> []" by (simp only: simp_thms)
        from d r show "last (os_path_dirname p) \<noteq> CHR ''/''" by (simp only: simp_thms)
      qed
    qed
  qed
qed

lemma dirname_plain: "CHR ''/'' \<notin> set b \<Longrightarrow> os_path_dirname b = []"
  using head_append [of b "[]"] by (simp add: os_path_dirname_def)

lemma dirname_append_root:
  assumes "d \<noteq> []" "list_all (\<lambda>c. c = CHR ''/'') d" "CHR ''/'' \<notin> set b"
  shows "os_path_dirname (d @ b) = d"
proof -
  from assms(1,2) last_in_set [OF assms(1)] have "last d = CHR ''/''"
    by (auto simp: list_all_iff)
  with assms(1) have "dropWhile (\<lambda>c. c \<noteq> CHR ''/'') (rev d) = rev d"
    by (rule head_ends_with_slash)
  with head_append [OF assms(3), of d]
  have "rev (dropWhile (\<lambda>c. c \<noteq> CHR ''/'') (rev (d @ b))) = d" by simp
  with assms(1,2) show ?thesis by (simp only: os_path_dirname_def Let_def) simp
qed

lemma dirname_append_dir:
  assumes "d \<noteq> []" "last d \<noteq> CHR ''/''" "CHR ''/'' \<notin> set b"
  shows "os_path_dirname ((d @ ''/'') @ b) = d"
proof -
  have h: "rev (dropWhile (\<lambda>c. c \<noteq> CHR ''/'') (rev ((d @ ''/'') @ b))) = d @ ''/''"
    using head_append [OF assms(3), of "d @ ''/''"] by simp
  have na: "\<not> list_all (\<lambda>c. c = CHR ''/'') (d @ ''/'')"
    using last_in_set [OF assms(1)] assms(2) by (auto simp: list_all_iff)
  have r: "rev (dropWhile (\<lambda>c. c = CHR ''/'') (rev (d @ ''/''))) = d"
    using rstrip_no_slash [OF assms(1,2)] by simp
  have ne: "d @ ''/'' \<noteq> []" by simp
  show ?thesis
    by (simp only: os_path_dirname_def Let_def h na ne r not_False_eq_True simp_thms if_True)
qed

lemma dirname_of_joined:
  assumes b: "CHR ''/'' \<notin> set b" "b \<noteq> []"
  shows "os_path_dirname (os_path_join (os_path_dirname p) b) = os_path_dirname p"
proof -
  from b have nb: "take 1 b \<noteq> ''/''" by (cases b) auto
  define d where "d = os_path_dirname p"
  have "os_path_dirname (os_path_join d b) = d"
  proof (cases p rule: dirname_cases)
    case empty
    then have "d = []" by (simp add: d_def)
    with nb have "os_path_join d b = b" by (simp add: os_path_join_def)
    with \<open>d = []\<close> dirname_plain [OF b(1)] show ?thesis by simp
  next
    case root
    then have r: "d \<noteq> []" "last d = CHR ''/''" "list_all (\<lambda>c. c = CHR ''/'') d"
      by (simp_all add: d_def)
    with nb have "os_path_join d b = d @ b" by (simp add: os_path_join_def)
    with dirname_append_root [OF r(1,3) b(1)] show ?thesis by simp
  next
    case dir
    then have r: "d \<noteq> []" "last d \<noteq> CHR ''/''" by (simp_all add: d_def)
    with nb have "os_path_join d b = (d @ ''/'') @ b" by (simp add: os_path_join_def)
    with dirname_append_dir [OF r b(1)] show ?thesis by simp
  qed
  then show ?thesis by (simp add: d_def)
qed

lemma svg_file_beside_script: "os_path_dirname (svg_file h) = os_path_dirname (script_file h)"
  unfolding svg_file_def by (rule dirname_of_joined) simp_all

lemma svg_file_name:
  "\<exists>d. svg_file h = d @ ''chat-icon.svg'' \<and> (d = [] \<or> last d = CHR ''/'')"
proof (cases "os_path_dirname (script_file h) = [] \<or> last (os_path_dirname (script_file h)) = CHR ''/''")
  case True
  then have "svg_file h = os_path_dirname (script_file h) @ ''chat-icon.svg''"
    by (auto simp: svg_file_def os_path_join_def)
  with True show ?thesis by blast
next
  case False
  then have "svg_file h = (os_path_dirname (script_file h) @ ''/'') @ ''chat-icon.svg''"
    by (simp add: svg_file_def os_path_join_def)
  moreover have "last (os_path_dirname (script_file h) @ ''/'') = CHR ''/''" by simp
  ultimately show ?thesis by blast
qed

lemma svg_file_ignores_cwd: "svg_file (h\<lparr>cwd := c\<rparr>) = svg_file h"
  by (simp add: svg_file_def)

lemma run_calls_subset:
  "set (calls (events (snd (convert_icons h fs))))
     \<subseteq> (\<lambda>s. (svg_file h, out_file s, s, s)) ` set sizes"
proof (cases rule: run_cases [of h _ fs])
  case no_native
  then show ?thesis by (simp add: run_no_native)
next
  case no_binding
  then show ?thesis by (simp add: run_no_binding)
next
  case no_source
  then show ?thesis by (simp add: run_no_source)
next
  case success
  then show ?thesis by (simp add: run_success calls_loop_events)
next
  case (failure pre sz post e)
  then have "calls (events (snd (convert_icons h fs)))
      = map (\<lambda>s. (svg_file h, out_file s, s, s)) (pre @ [sz])"
    by (simp add: run_failure calls_append calls_loop_events)
  moreover from failure(5) have "set sizes = set (pre @ sz # post)" by (rule arg_cong)
  then have "set (pre @ [sz]) \<subseteq> set sizes" by auto
  ultimately show ?thesis by auto
qed

lemma run_exists_checks:
  "set (exists_checks (events (snd (convert_icons h fs)))) \<subseteq> {svg_file h}"
proof (cases rule: run_cases [of h _ fs])
  case no_native
  then show ?thesis by (simp add: run_no_native)
next
  case no_binding
  then show ?thesis by (simp add: run_no_binding)
next
  case no_source
  then show ?thesis by (simp add: run_no_source)
next
  case success
  then show ?thesis by (simp add: run_success exists_checks_loop_events)
next
  case (failure pre sz post e)
  then show ?thesis
    by (simp add: run_failure exists_checks_append exists_checks_loop_events)
qed

lemma run_frame:
  assumes w: "writes_only_target (svg2png h)" and p: "p \<notin> target h ` set sizes"
  shows "files (snd (convert_icons h fs)) p = fs p"
proof (cases rule: run_cases [of h _ fs])
  case no_native
  then show ?thesis by (simp add: run_no_native)
next
  case no_binding
  then show ?thesis by (simp add: run_no_binding)
next
  case no_source
  then show ?thesis by (simp add: run_no_source)
next
  case success
  then have "files (snd (convert_icons h fs)) = files_after h (svg_file h) sizes fs"
    by (simp add: run_success)
  also have "\<dots> = with_outputs h sizes fs"
    using w success(5) by (rule files_after_with_outputs)
  finally show ?thesis using p by (simp add: with_outputs_other)
next
  case (failure pre sz post e)
  from failure(5) have "set sizes = set (pre @ sz # post)" by (rule arg_cong)
  with p have p1: "p \<noteq> target h sz" and p2: "p \<notin> target h ` set pre" by auto
  from failure have "files (snd (convert_icons h fs))
      = snd (render_call h (svg_file h) (files_after h (svg_file h) pre fs) sz)"
    by (simp add: run_failure)
  then have "files (snd (convert_icons h fs)) p = files_after h (svg_file h) pre fs p"
    using call_frame [OF w p1] by simp
  also have "files_after h (svg_file h) pre fs = with_outputs h pre fs"
    using w failure(6) by (rule files_after_with_outputs)
  finally show ?thesis using p2 by (simp add: with_outputs_other)
qed

lemma out_file_relative:
  "s \<in> set sizes \<Longrightarrow>
   CHR ''/'' \<notin> set (out_file s) \<and> resolve wd (out_file s) = wd @ ''/'' @ out_file s"
  by (auto simp: sizes_def out_file_names resolve_def)

lemma svg_file_in_directory:
  assumes "script_file h = d @ ''/'' @ n" "d \<noteq> []" "last d \<noteq> CHR ''/''" "CHR ''/'' \<notin> set n"
  shows "svg_file h = d @ ''/chat-icon.svg''"
proof -
  have "os_path_dirname ((d @ ''/'') @ n) = d"
    using assms(2,3,4) by (rule dirname_append_dir)
  with assms(1) have "os_path_dirname (script_file h) = d" by simp
  with assms(2,3) show ?thesis by (simp add: svg_file_def os_path_join_def)
qed

lemma svg_file_in_root:
  assumes "script_file h = ''/'' @ n" "CHR ''/'' \<notin> set n"
  shows "svg_file h = ''/chat-icon.svg''"
proof -
  have "os_path_dirname (''/'' @ n) = ''/''"
    by (rule dirname_append_root) (simp_all add: assms(2))
  with assms(1) have "os_path_dirname (script_file h) = ''/''" by simp
  then show ?thesis by (simp add: svg_file_def os_path_join_def)
qed

lemma svg_file_bare_name:
  assumes "CHR ''/'' \<notin> set (script_file h)"
  shows "svg_file h = ''chat-icon.svg''"
  using dirname_plain [OF assms] by (simp add: svg_file_def os_path_join_def)

lemma rstrip_prefix: "prefix (rev (dropWhile P (rev xs))) xs"
proof -
  have "suffix (dropWhile P (rev xs)) (rev xs)" by (rule suffix_dropWhile)
  then have "prefix (rev (dropWhile P (rev xs))) (rev (rev xs))"
    by (simp only: suffix_to_prefix)
  then show ?thesis by simp
qed

lemma dirname_prefix: "prefix (os_path_dirname p) p"
proof -
  define hd_part where "hd_part = rev (dropWhile (\<lambda>c. c \<noteq> CHR ''/'') (rev p))"
  have h: "prefix hd_part p" unfolding hd_part_def by (rule rstrip_prefix)
  have "prefix (rev (dropWhile (\<lambda>c. c = CHR ''/'') (rev hd_part))) hd_part"
    by (rule rstrip_prefix)
  with h have r: "prefix (rev (dropWhile (\<lambda>c. c = CHR ''/'') (rev hd_part))) p"
    by (rule prefix_order.trans [rotated])
  have "os_path_dirname p =
     (if hd_part \<noteq> [] \<and> \<not> list_all (\<lambda>c. c = CHR ''/'') hd_part
      then rev (dropWhile (\<lambda>c. c = CHR ''/'') (rev hd_part)) else hd_part)"
    unfolding hd_part_def by (rule dirname_unfold)
  with h r show ?thesis by (simp split: if_split)
qed

lemma dirname_absolute:
  assumes "take 1 p = ''/''"
  shows "take 1 (os_path_dirname p) = ''/''"
proof -
  from assms obtain rest where p: "p = CHR ''/'' # rest" by (cases p) auto
  define hd_part where "hd_part = rev (dropWhile (\<lambda>c. c \<noteq> CHR ''/'') (rev p))"
  have unfold: "os_path_dirname p =
     (if hd_part \<noteq> [] \<and> \<not> list_all (\<lambda>c. c = CHR ''/'') hd_part
      then rev (dropWhile (\<lambda>c. c = CHR ''/'') (rev hd_part)) else hd_part)"
    unfolding hd_part_def by (rule dirname_unfold)
  have "CHR ''/'' \<in> set (rev p)" by (simp add: p)
  then have "dropWhile (\<lambda>c. c \<noteq> CHR ''/'') (rev p) \<noteq> []"
    by (auto simp: dropWhile_eq_Nil_conv)
  then have hne: "hd_part \<noteq> []" by (simp add: hd_part_def)
  have ne: "os_path_dirname p \<noteq> []"
  proof (cases "list_all (\<lambda>c. c = CHR ''/'') hd_part")
    case True
    with unfold hne show ?thesis by simp
  next
    case False
    from rstrip_result [OF False] have "rev (dropWhile (\<lambda>c. c = CHR ''/'') (rev hd_part)) \<noteq> []"
      by (rule conjunct1)
    with unfold hne False show ?thesis by simp
  qed
  from dirname_prefix [of p] obtain zs where "p = os_path_dirname p @ zs"
    by (auto simp: prefix_def)
  with ne p show ?thesis by (cases "os_path_dirname p") auto
qed

lemma svg_file_absolute:
  assumes "take 1 (script_file h) = ''/''"
  shows "take 1 (svg_file h) = ''/''" and "resolve c (svg_file h) = svg_file h"
proof -
  from dirname_absolute [OF assms] obtain rest where
    d: "os_path_dirname (script_file h) = CHR ''/'' # rest"
    by (cases "os_path_dirname (script_file h)") auto
  then show a: "take 1 (svg_file h) = ''/''" by (simp add: svg_file_def os_path_join_def)
  then show "resolve c (svg_file h) = svg_file h" by (simp add: resolve_def)
qed

text \<open>
  Claim C5. The source path is the file \<^verbatim>\<open>chat-icon.svg\<close> in the directory of the
  script, by the path functions of POSIX. When \<^verbatim>\<open>__file__\<close> is a file name \<open>n\<close>
  in a directory \<open>d\<close>, that is \<open>d/n\<close> with no slash in \<open>n\<close>, the source path is
  \<open>d/chat-icon.svg\<close>; for a script in the root directory it is
  \<^verbatim>\<open>/chat-icon.svg\<close>; and when \<^verbatim>\<open>__file__\<close> is a bare file name, the
  script having been started from its own directory, it is \<^verbatim>\<open>chat-icon.svg\<close>
  beside it. When \<^verbatim>\<open>__file__\<close> is absolute the source path is absolute too, so it
  resolves to itself from every working directory. In every case the directory part of the
  source path is the directory part of \<^verbatim>\<open>__file__\<close>, its last component is
  \<^verbatim>\<open>chat-icon.svg\<close>, and the working directory does not enter its computation.
  It is the only path the run checks for existence and the only source it hands to the
  rasterizer. Every \<^verbatim>\<open>write_to\<close> the rasterizer is given is one of the four output
  names, contains no slash, and so resolves to that name directly in the working directory;
  for a rasterizer that writes only where it is told, the run changes the file system at
  those four paths of the working directory at most.
\<close>

theorem source_beside_script_outputs_in_cwd:
  "(script_file h = d @ ''/'' @ n \<and> d \<noteq> [] \<and> last d \<noteq> CHR ''/'' \<and> CHR ''/'' \<notin> set n \<longrightarrow>
      svg_file h = d @ ''/chat-icon.svg'')
   \<and> (script_file h = ''/'' @ n \<and> CHR ''/'' \<notin> set n \<longrightarrow> svg_file h = ''/chat-icon.svg'')
   \<and> (CHR ''/'' \<notin> set (script_file h) \<longrightarrow> svg_file h = ''chat-icon.svg'')
   \<and> (take 1 (script_file h) = ''/'' \<longrightarrow>
        take 1 (svg_file h) = ''/'' \<and> resolve c (svg_file h) = svg_file h)
   \<and> os_path_dirname (svg_file h) = os_path_dirname (script_file h)
   \<and> (\<exists>d. svg_file h = d @ ''chat-icon.svg'' \<and> (d = [] \<or> last d = CHR ''/''))
   \<and> svg_file (h\<lparr>cwd := c\<rparr>) = svg_file h
   \<and> set (exists_checks (events (snd (convert_icons h fs)))) \<subseteq> {svg_file h}
   \<and> (\<forall>call \<in> set (calls (events (snd (convert_icons h fs)))).
         fst call = svg_file h
         \<and> fst (snd call) \<in> out_file ` set sizes
         \<and> CHR ''/'' \<notin> set (fst (snd call))
         \<and> resolve (cwd h) (fst (snd call)) = cwd h @ ''/'' @ fst (snd call))
   \<and> (writes_only_target (svg2png h) \<longrightarrow>
        (\<forall>p. files (snd (convert_icons h fs)) p \<noteq> fs p \<longrightarrow>
             p \<in> {cwd h @ ''/chat-icon-16.png'', cwd h @ ''/chat-icon-48.png'',
                  cwd h @ ''/chat-icon-128.png'', cwd h @ ''/chat-icon-300.png''}))"
proof -
  have calls_ok: "\<forall>call \<in> set (calls (events (snd (convert_icons h fs)))).
         fst call = svg_file h
         \<and> fst (snd call) \<in> out_file ` set sizes
         \<and> CHR ''/'' \<notin> set (fst (snd call))
         \<and> resolve (cwd h) (fst (snd call)) = cwd h @ ''/'' @ fst (snd call)"
  proof
    fix call assume "call \<in> set (calls (events (snd (convert_icons h fs))))"
    with run_calls_subset [of h fs] obtain s where
      s: "s \<in> set sizes" "call = (svg_file h, out_file s, s, s)" by auto
    with out_file_relative [OF s(1), of "cwd h"]
    show "fst call = svg_file h
         \<and> fst (snd call) \<in> out_file ` set sizes
         \<and> CHR ''/'' \<notin> set (fst (snd call))
         \<and> resolve (cwd h) (fst (snd call)) = cwd h @ ''/'' @ fst (snd call)"
      by simp
  qed
  have frame: "writes_only_target (svg2png h) \<longrightarrow>
        (\<forall>p. files (snd (convert_icons h fs)) p \<noteq> fs p \<longrightarrow>
             p \<in> {cwd h @ ''/chat-icon-16.png'', cwd h @ ''/chat-icon-48.png'',
                  cwd h @ ''/chat-icon-128.png'', cwd h @ ''/chat-icon-300.png''})"
  proof (intro impI allI)
    fix p assume w: "writes_only_target (svg2png h)"
      and changed: "files (snd (convert_icons h fs)) p \<noteq> fs p"
    have "p \<in> target h ` set sizes"
    proof (rule ccontr)
      assume "p \<notin> target h ` set sizes"
      with w have "files (snd (convert_icons h fs)) p = fs p" by (rule run_frame)
      with changed show False by simp
    qed
    then show "p \<in> {cwd h @ ''/chat-icon-16.png'', cwd h @ ''/chat-icon-48.png'',
                  cwd h @ ''/chat-icon-128.png'', cwd h @ ''/chat-icon-300.png''}"
      by (auto simp: sizes_def targets_of_sizes)
  qed
  have in_dir: "script_file h = d @ ''/'' @ n \<and> d \<noteq> [] \<and> last d \<noteq> CHR ''/''
      \<and> CHR ''/'' \<notin> set n \<longrightarrow> svg_file h = d @ ''/chat-icon.svg''"
  proof
    assume a: "script_file h = d @ ''/'' @ n \<and> d \<noteq> [] \<and> last d \<noteq> CHR ''/''
      \<and> CHR ''/'' \<notin> set n"
    then have "script_file h = d @ ''/'' @ n" "d \<noteq> []" "last d \<noteq> CHR ''/''"
      "CHR ''/'' \<notin> set n" by simp_all
    then show "svg_file h = d @ ''/chat-icon.svg''" by (rule svg_file_in_directory)
  qed
  have in_root: "script_file h = ''/'' @ n \<and> CHR ''/'' \<notin> set n \<longrightarrow>
      svg_file h = ''/chat-icon.svg''"
  proof
    assume "script_file h = ''/'' @ n \<and> CHR ''/'' \<notin> set n"
    then have "script_file h = ''/'' @ n" "CHR ''/'' \<notin> set n" by simp_all
    then show "svg_file h = ''/chat-icon.svg''" by (rule svg_file_in_root)
  qed
  have bare: "CHR ''/'' \<notin> set (script_file h) \<longrightarrow> svg_file h = ''chat-icon.svg''"
  proof
    assume "CHR ''/'' \<notin> set (script_file h)"
    then show "svg_file h = ''chat-icon.svg''" by (rule svg_file_bare_name)
  qed
  have absolute: "take 1 (script_file h) = ''/'' \<longrightarrow>
        take 1 (svg_file h) = ''/'' \<and> resolve c (svg_file h) = svg_file h"
  proof
    assume a: "take 1 (script_file h) = ''/''"
    from a have 1: "take 1 (svg_file h) = ''/''" by (rule svg_file_absolute(1))
    from a have 2: "resolve c (svg_file h) = svg_file h" by (rule svg_file_absolute(2))
    from 1 2 show "take 1 (svg_file h) = ''/'' \<and> resolve c (svg_file h) = svg_file h" ..
  qed
  note beside = svg_file_beside_script [of h]
  note name = svg_file_name [of h]
  note no_cwd = svg_file_ignores_cwd [of c h]
  note checks = run_exists_checks [of h fs]
  show ?thesis
    by (intro conjI in_dir in_root bare absolute beside name no_cwd checks calls_ok frame)
qed

theorem source_beside_script_outputs_in_cwd_witness:
  "script_file good_host = ''/x/tools'' @ ''/'' @ ''convert-icons.py''
   \<and> svg_file good_host = ''/x/tools'' @ ''/chat-icon.svg''
   \<and> take 1 (script_file good_host) = ''/''
   \<and> resolve ''/elsewhere'' (svg_file good_host) = ''/x/tools/chat-icon.svg''
   \<and> os_path_dirname (svg_file good_host) = ''/x/tools''
   \<and> os_path_dirname (script_file good_host) = ''/x/tools''
   \<and> svg_file (good_host\<lparr>cwd := ''/elsewhere''\<rparr>) = ''/x/tools/chat-icon.svg''
   \<and> exists_checks (events (snd (convert_icons good_host good_fs))) = [''/x/tools/chat-icon.svg'']
   \<and> files (snd (convert_icons good_host good_fs)) ''/w/chat-icon-16.png''
       = Some (File True (Png 16 16))
   \<and> good_fs ''/w/chat-icon-16.png'' = None
   \<and> files (snd (convert_icons good_host good_fs)) ''/x/tools/chat-icon-16.png'' = None"
proof -
  note t = source_beside_script_outputs_in_cwd
    [of good_host "''/x/tools''" "''convert-icons.py''" "''/elsewhere''" good_fs]
  have w: "writes_only_target (svg2png good_host)"
    by (simp add: good_host_facts reference_writes_only_target)
  have s: "script_file good_host = ''/x/tools'' @ ''/'' @ ''convert-icons.py''"
    "take 1 (script_file good_host) = ''/''"
    by (simp_all add: host_defs)
  have n: "''/x/tools'' \<noteq> []" "last ''/x/tools'' \<noteq> CHR ''/''"
    "CHR ''/'' \<notin> set ''convert-icons.py''" by simp_all
  have loc: "svg_file good_host = ''/x/tools'' @ ''/chat-icon.svg''"
    by (rule mp [OF t [THEN conjunct1]]) (simp add: host_defs)
  have "take 1 (svg_file good_host) = ''/''
      \<and> resolve ''/elsewhere'' (svg_file good_host) = svg_file good_host"
    by (rule mp [OF t [THEN conjunct2, THEN conjunct2, THEN conjunct2, THEN conjunct1]])
      (simp add: host_defs)
  then have "resolve ''/elsewhere'' (svg_file good_host) = svg_file good_host" ..
  also have "svg_file good_host = ''/x/tools/chat-icon.svg''" using loc by simp
  finally have res: "resolve ''/elsewhere'' (svg_file good_host) = ''/x/tools/chat-icon.svg''" .
  have d: "os_path_dirname (script_file good_host) = ''/x/tools''"
    by (simp add: host_defs os_path_dirname_def)
  from svg_file_beside_script [of good_host] d
  have a: "os_path_dirname (svg_file good_host) = ''/x/tools''" by simp
  from svg_file_ignores_cwd [of "''/elsewhere''" good_host] loc
  have b: "svg_file (good_host\<lparr>cwd := ''/elsewhere''\<rparr>) = ''/x/tools/chat-icon.svg''"
    by simp
  have e: "exists_checks (events (snd (convert_icons good_host good_fs)))
      = [''/x/tools/chat-icon.svg'']" by (simp add: good_run)
  have f: "files (snd (convert_icons good_host good_fs)) ''/w/chat-icon-16.png''
       = Some (File True (Png 16 16))" by (simp add: good_run)
  have g: "good_fs ''/w/chat-icon-16.png'' = None" "good_fs ''/x/tools/chat-icon-16.png'' = None"
    by (simp_all add: good_fs_def)
  note frame = t [THEN conjunct2, THEN conjunct2, THEN conjunct2, THEN conjunct2, THEN conjunct2,
    THEN conjunct2, THEN conjunct2, THEN conjunct2, THEN conjunct2]
  from frame w have "\<forall>p. files (snd (convert_icons good_host good_fs)) p \<noteq> good_fs p \<longrightarrow>
      p \<in> {cwd good_host @ ''/chat-icon-16.png'', cwd good_host @ ''/chat-icon-48.png'',
           cwd good_host @ ''/chat-icon-128.png'', cwd good_host @ ''/chat-icon-300.png''}"
    by (rule mp)
  then have "files (snd (convert_icons good_host good_fs)) ''/x/tools/chat-icon-16.png''
      \<noteq> good_fs ''/x/tools/chat-icon-16.png'' \<longrightarrow>
      ''/x/tools/chat-icon-16.png'' \<in> {cwd good_host @ ''/chat-icon-16.png'',
        cwd good_host @ ''/chat-icon-48.png'', cwd good_host @ ''/chat-icon-128.png'',
        cwd good_host @ ''/chat-icon-300.png''}" by (rule spec)
  then have h: "files (snd (convert_icons good_host good_fs)) ''/x/tools/chat-icon-16.png'' = None"
    by (simp add: good_host_facts g)
  from s loc res a b d e f g h show ?thesis by simp
qed

subsection \<open>Running the script twice\<close>

lemma finished_run:
  assumes "fst (convert_icons h fs) = Finished"
  shows "import_cairosvg h = None \<and> os_path_exists fs (cwd h) (svg_file h)
    \<and> every_call_succeeds h (svg_file h) sizes fs"
proof (cases rule: run_cases [of h _ fs])
  case no_native
  with assms show ?thesis by (simp add: run_no_native)
next
  case no_binding
  with assms show ?thesis by (simp add: run_no_binding)
next
  case no_source
  with assms show ?thesis by (simp add: run_no_source)
next
  case success
  then show ?thesis by simp
next
  case (failure pre sz post e)
  with assms show ?thesis by (simp add: run_failure)
qed

lemma rerun_stable:
  assumes w: "writes_only_target (svg2png h)" and t: "tolerates_outputs (svg2png h)"
  shows "(\<forall>p. G p = fs p
            \<or> (p \<noteq> resolve (cwd h) svg \<and> (\<exists>a b. G p = Some (File True (Png a b))))) \<Longrightarrow>
         every_call_succeeds h svg ss fs \<Longrightarrow>
         (\<forall>s \<in> set ss. G (target h s) = Some (png_file s)) \<Longrightarrow>
         every_call_succeeds h svg ss G \<and> files_after h svg ss G = G"
proof (induction ss arbitrary: fs)
  case Nil
  then show ?case by simp
next
  case (Cons a ss)
  from Cons.prems(2) have ok: "fst (render_call h svg fs a) = None"
    and rest: "every_call_succeeds h svg ss (snd (render_call h svg fs a))" by simp_all
  from w ok have fs1: "snd (render_call h svg fs a) = fs(target h a \<mapsto> png_file a)"
    by (rule call_writes)
  from Cons.prems(3) have Ga: "G (target h a) = Some (png_file a)" by simp
  from t Cons.prems(1) ok have okG: "fst (render_call h svg G a) = None"
    unfolding tolerates_outputs_def render_call_def by blast
  with w have "snd (render_call h svg G a) = G(target h a \<mapsto> png_file a)"
    by (rule call_writes)
  with Ga have same: "snd (render_call h svg G a) = G"
    by (simp add: map_upd_triv)
  have agree: "\<forall>p. G p = (snd (render_call h svg fs a)) p
            \<or> (p \<noteq> resolve (cwd h) svg \<and> (\<exists>a b. G p = Some (File True (Png a b))))"
  proof
    fix p
    show "G p = (snd (render_call h svg fs a)) p
            \<or> (p \<noteq> resolve (cwd h) svg \<and> (\<exists>a b. G p = Some (File True (Png a b))))"
    proof (cases "p = target h a")
      case True
      with Ga fs1 show ?thesis by simp
    next
      case False
      with fs1 have "(snd (render_call h svg fs a)) p = fs p" by simp
      with Cons.prems(1) show ?thesis by metis
    qed
  qed
  from Cons.prems(3) have have_rest: "\<forall>s \<in> set ss. G (target h s) = Some (png_file s)" by simp
  from Cons.IH [OF agree rest have_rest] okG same show ?case by simp
qed

text \<open>
  Claim C8. Let the rasterizer meet the two contracts (it writes a raster of the requested
  size to its target and nothing else, and outputs that are already there do not make it
  raise), and let a first run finish. Then a second run, started on the file system the
  first one left and with nothing deleted in between, finishes as well; it makes the same
  rasterizer calls; after either run the output for every size \<open>s\<close> is a raster of width
  and height \<open>s\<close>; the first run leaves the source file as it was; and the second run
  leaves the file system exactly as the first one did.
\<close>

theorem second_run_overwrites:
  assumes "writes_only_target (svg2png h)"
    and "tolerates_outputs (svg2png h)"
    and "fst (convert_icons h fs) = Finished"
  shows "fst (convert_icons h (files (snd (convert_icons h fs)))) = Finished
    \<and> calls (events (snd (convert_icons h (files (snd (convert_icons h fs))))))
        = calls (events (snd (convert_icons h fs)))
    \<and> (\<forall>s \<in> set sizes.
          files (snd (convert_icons h fs)) (target h s) = Some (File True (Png s s))
          \<and> files (snd (convert_icons h (files (snd (convert_icons h fs))))) (target h s)
              = Some (File True (Png s s)))
    \<and> files (snd (convert_icons h fs)) (resolve (cwd h) (svg_file h))
        = fs (resolve (cwd h) (svg_file h))
    \<and> files (snd (convert_icons h (files (snd (convert_icons h fs)))))
        = files (snd (convert_icons h fs))"
proof -
  let ?svg = "svg_file h"
  let ?G = "files (snd (convert_icons h fs))"
  from finished_run [OF assms(3)] have imp: "import_cairosvg h = None"
    and ex: "os_path_exists fs (cwd h) ?svg" and ok: "every_call_succeeds h ?svg sizes fs"
    by simp_all
  have run1: "convert_icons h fs =
     (Finished,
      \<lparr>files = files_after h ?svg sizes fs,
       events = [EvImport, EvExists ?svg] @ loop_events ?svg sizes\<rparr>)"
    using imp ex ok by (rule run_success)
  have G: "?G = with_outputs h sizes fs"
    using files_after_with_outputs [OF assms(1) ok] by (simp add: run1)
  have at: "\<forall>s \<in> set sizes. ?G (target h s) = Some (png_file s)"
    using with_outputs_at [OF targets_inj] by (simp add: G)
  have src: "?G (resolve (cwd h) ?svg) = fs (resolve (cwd h) ?svg)"
  proof -
    have "resolve (cwd h) ?svg \<notin> target h ` set sizes"
      using source_not_target [of h] by auto
    then show ?thesis by (simp add: G with_outputs_other)
  qed
  have agree: "\<forall>p. ?G p = fs p
      \<or> (p \<noteq> resolve (cwd h) ?svg \<and> (\<exists>a b. ?G p = Some (File True (Png a b))))"
  proof
    fix p
    show "?G p = fs p
      \<or> (p \<noteq> resolve (cwd h) ?svg \<and> (\<exists>a b. ?G p = Some (File True (Png a b))))"
    proof (cases "p \<in> target h ` set sizes")
      case True
      then obtain s where s: "s \<in> set sizes" "p = target h s" by blast
      with at have "?G p = Some (File True (Png s s))" by (simp add: png_file_def)
      moreover from s have "p \<noteq> resolve (cwd h) ?svg" using source_not_target [of h s] by simp
      ultimately show ?thesis by blast
    next
      case False
      then have "?G p = fs p" by (simp add: G with_outputs_other)
      then show ?thesis by simp
    qed
  qed
  from rerun_stable [OF assms(1,2) agree ok at]
  have ok2: "every_call_succeeds h ?svg sizes ?G" and stable: "files_after h ?svg sizes ?G = ?G"
    by simp_all
  from ex src have ex2: "os_path_exists ?G (cwd h) ?svg" by (simp add: os_path_exists_def)
  have run2: "convert_icons h ?G =
     (Finished,
      \<lparr>files = files_after h ?svg sizes ?G,
       events = [EvImport, EvExists ?svg] @ loop_events ?svg sizes\<rparr>)"
    using imp ex2 ok2 by (rule run_success)
  have a: "fst (convert_icons h ?G) = Finished" by (simp add: run2)
  have b: "calls (events (snd (convert_icons h ?G))) = calls (events (snd (convert_icons h fs)))"
    by (simp add: run2) (simp add: run1)
  have e: "files (snd (convert_icons h ?G)) = ?G"
    using stable by (simp add: run2)
  have c: "\<forall>s \<in> set sizes. ?G (target h s) = Some (File True (Png s s))
          \<and> files (snd (convert_icons h ?G)) (target h s) = Some (File True (Png s s))"
    using at by (simp add: e png_file_def)
  from a b c src e show ?thesis by blast
qed

theorem second_run_overwrites_witness:
  "fst (convert_icons good_host good_fs) = Finished
   \<and> fst (convert_icons good_host (files (snd (convert_icons good_host good_fs)))) = Finished
   \<and> files (snd (convert_icons good_host good_fs)) ''/w/chat-icon-300.png''
       = Some (File True (Png 300 300))
   \<and> files (snd (convert_icons good_host (files (snd (convert_icons good_host good_fs)))))
        ''/w/chat-icon-300.png'' = Some (File True (Png 300 300))
   \<and> files (snd (convert_icons good_host (files (snd (convert_icons good_host good_fs)))))
       = files (snd (convert_icons good_host good_fs))"
proof -
  have w: "writes_only_target (svg2png good_host)" "tolerates_outputs (svg2png good_host)"
    by (simp_all add: good_host_facts reference_writes_only_target reference_tolerates_outputs)
  have f: "fst (convert_icons good_host good_fs) = Finished" by (simp add: good_run)
  note t = second_run_overwrites [OF w f]
  from t have a: "fst (convert_icons good_host (files (snd (convert_icons good_host good_fs))))
      = Finished"
    and e: "files (snd (convert_icons good_host (files (snd (convert_icons good_host good_fs)))))
       = files (snd (convert_icons good_host good_fs))" by blast+
  from t have "\<forall>s \<in> set sizes.
          files (snd (convert_icons good_host good_fs)) (target good_host s)
            = Some (File True (Png s s))
          \<and> files (snd (convert_icons good_host (files (snd (convert_icons good_host good_fs)))))
               (target good_host s) = Some (File True (Png s s))" by blast
  then have c: "files (snd (convert_icons good_host good_fs)) ''/w/chat-icon-300.png''
       = Some (File True (Png 300 300))
   \<and> files (snd (convert_icons good_host (files (snd (convert_icons good_host good_fs)))))
        ''/w/chat-icon-300.png'' = Some (File True (Png 300 300))"
    by (simp add: sizes_def targets_of_sizes good_host_facts)
  from f a c e show ?thesis by blast
qed

end
